theory Spec2Isabelle
  imports Complex_Main
begin

section \<open>Data model of the fallback manager (class TeslaFallbackManager)\<close>

text \<open>
  The manager keeps a list of playback methods, the attempt history, the detected network
  and device information and a metrics object. JavaScript numbers are modelled as exact
  rationals (\<open>rat\<close>), loop counters and retry budgets as natural numbers, priorities as
  integers. Clock readings (\<open>performance.now()\<close>, \<open>Date.now()\<close>) and the fields that only
  store them (\<open>time\<close>, \<open>timestamp\<close>) are left out of the records, as are the
  \<open>description\<close> texts. String literals that the source writes in Chinese are rendered
  in English.
\<close>

record play_method =
  name :: string
  priority :: int
  timeout :: rat
  retries :: nat
  requirements :: "string list"
  available :: bool
    \<comment> \<open>unset (\<open>undefined\<close>) until availability detection has run; only its truthiness is read\<close>

record attempt_record =
  ar_method :: string
  ar_success :: bool
  ar_error :: string

record conn_record =
  cr_method :: string

record metrics =
  connectionTime :: "conn_record list"
  errorRate :: rat
  successRate :: "string \<rightharpoonup> rat"

record network_info =
  effective_type :: string
  downlink :: "rat option"
  bandwidth_estimate :: "rat option"

type_synonym device_info = "string \<rightharpoonup> bool"

record manager =
  methods :: "play_method list"
  currentMethod :: "play_method option"
  attemptHistory :: "attempt_record list"
  networkInfo :: "network_info option"
  deviceInfo :: "device_info option"
  metrics :: metrics

datatype speed = Slow | Medium | Fast | Unknown

datatype js_error = Error string | ReferenceError string | TypeError string

text \<open>The method list and the initial fields that the constructor assigns.\<close>

definition constructor_methods :: "play_method list" where
  "constructor_methods =
     [\<lparr>name = ''webrtc'', priority = 1, timeout = 10000, retries = 2,
        requirements = [''webrtc_support'', ''websocket_support''], available = False\<rparr>,
      \<lparr>name = ''proxy'', priority = 2, timeout = 15000, retries = 3,
        requirements = [''proxy_server''], available = False\<rparr>,
      \<lparr>name = ''transcode'', priority = 3, timeout = 30000, retries = 2,
        requirements = [''proxy_server'', ''ffmpeg_support''], available = False\<rparr>,
      \<lparr>name = ''direct'', priority = 4, timeout = 20000, retries = 1,
        requirements = [], available = False\<rparr>]"

definition empty_metrics :: metrics where
  "empty_metrics = \<lparr>connectionTime = [], errorRate = 0, successRate = Map.empty\<rparr>"

definition constructor :: manager where
  "constructor =
     \<lparr>methods = constructor_methods, currentMethod = None, attemptHistory = [],
      networkInfo = None, deviceInfo = None, metrics = empty_metrics\<rparr>"

section \<open>Capability check and availability detection\<close>

text \<open>
  \<open>this.deviceInfo?.key\<close> negated: the capability counts only when the device information
  exists and holds \<open>true\<close> under the key.
\<close>

definition truthy_cap :: "device_info option \<Rightarrow> string \<Rightarrow> bool" where
  "truthy_cap dev k = (case dev of None \<Rightarrow> False | Some d \<Rightarrow> d k = Some True)"

text \<open>
  The loop over \<open>method.requirements\<close> with its \<open>switch\<close>: the two device capabilities are
  tested, the cases \<open>proxy_server\<close> and \<open>ffmpeg_support\<close> only \<open>break\<close>, any other tag
  matches no case.
\<close>

fun requirements_loop :: "device_info option \<Rightarrow> string list \<Rightarrow> bool" where
  "requirements_loop dev [] = True"
| "requirements_loop dev (requirement # rest) =
     (if requirement = ''webrtc_support'' then
        (if \<not> truthy_cap dev ''webrtc_support'' then False else requirements_loop dev rest)
      else if requirement = ''websocket_support'' then
        (if \<not> truthy_cap dev ''websocket_support'' then False else requirements_loop dev rest)
      else if requirement = ''proxy_server'' then requirements_loop dev rest
      else if requirement = ''ffmpeg_support'' then requirements_loop dev rest
      else requirements_loop dev rest)"

definition checkMethodRequirements :: "manager \<Rightarrow> play_method \<Rightarrow> bool" where
  "checkMethodRequirements st m = requirements_loop (deviceInfo st) (requirements m)"

definition detectMethodAvailability :: "manager \<Rightarrow> manager" where
  "detectMethodAvailability st =
     st\<lparr>methods := map (\<lambda>m. m\<lparr>available := checkMethodRequirements st m\<rparr>) (methods st)\<rparr>"

text \<open>
  \<open>initializeCapabilityDetection\<close>, with the results of the two browser probes
  (\<open>detectDeviceCapabilities\<close>, \<open>detectNetworkCapabilities\<close>) taken as inputs.
\<close>

definition initializeCapabilityDetection :: "device_info \<Rightarrow> network_info \<Rightarrow> manager \<Rightarrow> manager" where
  "initializeCapabilityDetection dev net st =
     detectMethodAvailability (st\<lparr>deviceInfo := Some dev, networkInfo := Some net\<rparr>)"

section \<open>Network speed category\<close>

definition speed_by_bandwidth :: "network_info \<Rightarrow> speed" where
  "speed_by_bandwidth ni =
     (case bandwidth_estimate ni of
        None \<Rightarrow> Medium
      | Some b \<Rightarrow>
          if b = 0 then Medium
          else if b < 1000000 then Slow
          else if b < 10000000 then Medium
          else Fast)"

definition speed_by_downlink :: "network_info \<Rightarrow> speed" where
  "speed_by_downlink ni =
     (case downlink ni of
        None \<Rightarrow> speed_by_bandwidth ni
      | Some d \<Rightarrow>
          if d = 0 then speed_by_bandwidth ni
          else if d < 1 then Slow
          else if d < 10 then Medium
          else Fast)"

definition getNetworkSpeedCategory :: "manager \<Rightarrow> speed" where
  "getNetworkSpeedCategory st =
     (case networkInfo st of
        None \<Rightarrow> Unknown
      | Some ni \<Rightarrow>
          if effective_type ni = ''slow-2g'' \<or> effective_type ni = ''2g'' then Slow
          else if effective_type ni = ''3g'' then Medium
          else if effective_type ni = ''4g'' then Fast
          else speed_by_downlink ni)"

section \<open>Sorting with a comparator\<close>

text \<open>
  \<open>Array.prototype.sort(compare)\<close> is a stable sort: \<open>a\<close> is placed before \<open>b\<close> when
  \<open>compare(a, b) < 0\<close>, and elements that compare as equal keep their order. It is modelled
  by stable insertion sort.
\<close>

fun js_insort :: "('a \<Rightarrow> 'a \<Rightarrow> rat) \<Rightarrow> 'a \<Rightarrow> 'a list \<Rightarrow> 'a list" where
  "js_insort compare a [] = [a]"
| "js_insort compare a (b # bs) =
     (if compare a b \<le> 0 then a # b # bs else b # js_insort compare a bs)"

definition js_sort :: "('a \<Rightarrow> 'a \<Rightarrow> rat) \<Rightarrow> 'a list \<Rightarrow> 'a list" where
  "js_sort compare xs = foldr (js_insort compare) xs []"

text \<open>\<open>Array.prototype.indexOf\<close>: the first position of the element, or \<open>-1\<close>.\<close>

fun indexOf :: "'a list \<Rightarrow> 'a \<Rightarrow> int" where
  "indexOf [] x = -1"
| "indexOf (y # ys) x =
     (if y = x then 0 else (let i = indexOf ys x in if i < 0 then -1 else i + 1))"

section \<open>Selection of the playback method\<close>

definition by_priority :: "play_method \<Rightarrow> play_method \<Rightarrow> rat" where
  "by_priority a b = of_int (priority a - priority b)"

definition lightweightOrder :: "string list" where
  "lightweightOrder = [''direct'', ''proxy'', ''transcode'', ''webrtc'']"

text \<open>The copy \<open>{ ...method }\<close> with the timeout and retry adjustment of the speed category.\<close>

definition optimizedMethod :: "speed \<Rightarrow> play_method \<Rightarrow> play_method" where
  "optimizedMethod networkSpeed m =
     (case networkSpeed of
        Slow \<Rightarrow> m\<lparr>timeout := timeout m * 2, retries := retries m + 1\<rparr>
      | Medium \<Rightarrow> m\<lparr>timeout := timeout m * (3 / 2)\<rparr>
      | Fast \<Rightarrow> m\<lparr>timeout := timeout m * (4 / 5)\<rparr>
      | Unknown \<Rightarrow> m)"

definition by_network :: "speed \<Rightarrow> play_method \<Rightarrow> play_method \<Rightarrow> rat" where
  "by_network networkSpeed a b =
     (if networkSpeed = Slow
      then of_int (indexOf lightweightOrder (name a) - indexOf lightweightOrder (name b))
      else of_int (priority a - priority b))"

definition optimizeMethodsByNetwork :: "manager \<Rightarrow> play_method list \<Rightarrow> play_method list" where
  "optimizeMethodsByNetwork st ms =
     (case networkInfo st of
        None \<Rightarrow> ms
      | Some _ \<Rightarrow>
          (let networkSpeed = getNetworkSpeedCategory st
           in js_sort (by_network networkSpeed) (map (optimizedMethod networkSpeed) ms)))"

text \<open>\<open>this.metrics.successRate[name] || 0.5\<close>: a missing entry and a stored zero both give 0.5.\<close>

definition rate_or_default :: "manager \<Rightarrow> string \<Rightarrow> rat" where
  "rate_or_default st n =
     (case successRate (metrics st) n of
        None \<Rightarrow> 1 / 2
      | Some r \<Rightarrow> if r = 0 then 1 / 2 else r)"

definition score :: "manager \<Rightarrow> play_method \<Rightarrow> rat" where
  "score st m = rate_or_default st (name m) * (7 / 10) + of_int (5 - priority m) * (3 / 10)"

definition by_history :: "manager \<Rightarrow> play_method \<Rightarrow> play_method \<Rightarrow> rat" where
  "by_history st a b = score st b - score st a"

definition optimizeMethodsByHistory :: "manager \<Rightarrow> play_method list \<Rightarrow> play_method list" where
  "optimizeMethodsByHistory st ms = js_sort (by_history st) ms"

definition availableMethods :: "manager \<Rightarrow> play_method list" where
  "availableMethods st = js_sort by_priority (filter available (methods st))"

text \<open>
  The ordered list \<open>finalMethods\<close> that \<open>selectBestMethod\<close> computes; the specification
  calls it the output of \<open>selectOrder\<close>.
\<close>

definition selectOrder :: "manager \<Rightarrow> play_method list" where
  "selectOrder st = optimizeMethodsByHistory st (optimizeMethodsByNetwork st (availableMethods st))"

definition msg_no_method :: string where
  "msg_no_method = ''no playback method available''"

text \<open>
  \<open>selectBestMethod\<close> throws when no method is available; otherwise it stores and returns
  \<open>finalMethods[0]\<close>. The sorts and the copying keep the length of the list, so the last
  branch below (an empty \<open>finalMethods\<close>, where the caller would read a property of
  \<open>undefined\<close>) is never taken.
\<close>

definition selectBestMethod :: "manager \<Rightarrow> (js_error + play_method) \<times> manager" where
  "selectBestMethod st =
     (if availableMethods st = [] then (Inl (Error msg_no_method), st)
      else
        (case selectOrder st of
           selectedMethod # _ \<Rightarrow> (Inr selectedMethod, st\<lparr>currentMethod := Some selectedMethod\<rparr>)
         | [] \<Rightarrow> (Inl (TypeError ''selectedMethod is undefined''), st)))"

section \<open>Recording outcomes\<close>

text \<open>
  \<open>if (!successRate[name]) successRate[name] = 0.5\<close>: the entry is set to 0.5 when it is
  missing and also when it holds 0, which is falsy as well.
\<close>

definition initRate :: "string \<Rightarrow> (string \<rightharpoonup> rat) \<Rightarrow> (string \<rightharpoonup> rat)" where
  "initRate n sr =
     (case sr n of
        None \<Rightarrow> sr(n \<mapsto> 1 / 2)
      | Some r \<Rightarrow> if r = 0 then sr(n \<mapsto> 1 / 2) else sr)"

text \<open>
  \<open>successRate[name] = f(successRate[name])\<close>. The entry exists whenever this runs after
  \<open>initRate\<close>; the branch for a missing entry is never taken there.
\<close>

definition updateRate :: "(rat \<Rightarrow> rat) \<Rightarrow> string \<Rightarrow> (string \<rightharpoonup> rat) \<Rightarrow> (string \<rightharpoonup> rat)" where
  "updateRate f n sr = (case sr n of None \<Rightarrow> sr | Some r \<Rightarrow> sr(n \<mapsto> f r))"

text \<open>\<open>Array.prototype.slice(-k)\<close>: the last \<open>k\<close> elements, or all of them when there are fewer.\<close>

definition slice_last :: "nat \<Rightarrow> 'a list \<Rightarrow> 'a list" where
  "slice_last k xs = drop (length xs - k) xs"

definition updateMetrics :: "manager \<Rightarrow> manager" where
  "updateMetrics st =
     (let recentAttempts = slice_last 20 (attemptHistory st);
          failures = length (filter (\<lambda>attempt. \<not> ar_success attempt) recentAttempts)
      in st\<lparr>metrics := (metrics st)\<lparr>errorRate :=
            (if length recentAttempts > 0
             then rat_of_nat failures / rat_of_nat (length recentAttempts) else 0)\<rparr>\<rparr>)"

text \<open>\<open>push\<close> followed by one \<open>shift\<close> when the list has grown beyond the limit.\<close>

definition push_limited :: "nat \<Rightarrow> 'a \<Rightarrow> 'a list \<Rightarrow> 'a list" where
  "push_limited limit x xs = (let ys = xs @ [x] in if length ys > limit then tl ys else ys)"

definition recordSuccess :: "play_method \<Rightarrow> manager \<Rightarrow> manager" where
  "recordSuccess m st =
     (let sr = updateRate (\<lambda>r. min 1 (r + 1 / 10)) (name m)
                 (initRate (name m) (successRate (metrics st)));
          ct = push_limited 100 \<lparr>cr_method = name m\<rparr> (connectionTime (metrics st))
      in updateMetrics (st\<lparr>metrics := (metrics st)\<lparr>successRate := sr, connectionTime := ct\<rparr>\<rparr>))"

definition recordFailure :: "play_method \<Rightarrow> string \<Rightarrow> manager \<Rightarrow> manager" where
  "recordFailure m error st =
     (let sr = updateRate (\<lambda>r. max 0 (r - 1 / 10)) (name m)
                 (initRate (name m) (successRate (metrics st)));
          h = push_limited 50 \<lparr>ar_method = name m, ar_success = False, ar_error = error\<rparr>
                (attemptHistory st)
      in updateMetrics (st\<lparr>metrics := (metrics st)\<lparr>successRate := sr\<rparr>, attemptHistory := h\<rparr>))"

definition resetMetrics :: "manager \<Rightarrow> manager" where
  "resetMetrics st = st\<lparr>metrics := empty_metrics, attemptHistory := []\<rparr>"

section \<open>Execution with fallback\<close>

text \<open>
  What one call of the caller's \<open>playFunction\<close> does: its promise resolves with a result
  or rejects with an error (given by its message) after some delay in milliseconds, or
  never settles. A synchronous throw is caught by the same \<open>catch\<close> block and behaves like
  a rejection with delay 0 (the timeouts of the method list are positive).
\<close>

datatype 'r play_outcome = Resolves rat 'r | Rejects rat string | Pending

definition msg_timeout :: string where
  "msg_timeout = ''playback timed out''"

definition msg_all_failed :: string where
  "msg_all_failed = ''all playback methods failed: ''"

definition msg_unknown :: string where
  "msg_unknown = ''unknown error''"

text \<open>
  \<open>Promise.race([playPromise, timeoutPromise])\<close>: the promise that settles first decides,
  the other one is ignored. The timer is started before the play function is called, so
  it wins when both are due at the same time.
\<close>

definition race :: "rat \<Rightarrow> 'r play_outcome \<Rightarrow> string + 'r" where
  "race timer outcome =
     (case outcome of
        Resolves d result \<Rightarrow> if d < timer then Inr result else Inl msg_timeout
      | Rejects d error \<Rightarrow> if d < timer then Inl error else Inl msg_timeout
      | Pending \<Rightarrow> Inl msg_timeout)"

text \<open>
  The local state of one call: the manager, the variable \<open>lastError\<close>, and the list of
  the calls made so far, each with the method object handed to \<open>playFunction\<close> and the
  delay handed to \<open>setTimeout\<close>.
\<close>

record exec_state =
  mgr :: manager
  lastError :: "string option"
  calls :: "(play_method \<times> rat) list"

datatype 'r completion = Return 'r | Throw js_error | Normal

text \<open>
  The inner loop \<open>for (attempt = 0; attempt < method.retries; attempt++)\<close>. The play
  function of the model receives the attempt number to tell successive calls apart.

  The \<open>catch\<close> block reads the identifier \<open>attemptStartTime\<close>, which is declared with
  \<open>const\<close> inside the \<open>try\<close> block and therefore not in scope there. The read is resolved
  in the enclosing scopes, none of which declares it, and ends at the global object:
  \<open>global_attemptStartTime\<close> tells whether the page defines a global of that name. When
  it does not, the read throws a ReferenceError, which leaves the \<open>catch\<close> block and the
  function. The callbacks taken from the options default to functions that do nothing
  and are modelled so; the back-off delay only waits.
\<close>

function attempt_loop ::
  "bool \<Rightarrow> (play_method \<Rightarrow> nat \<Rightarrow> 'r play_outcome) \<Rightarrow> play_method \<Rightarrow> nat \<Rightarrow> exec_state
     \<Rightarrow> 'r completion \<times> exec_state" where
  "attempt_loop global_attemptStartTime playFunction m attempt s =
     (if attempt < retries m then
        (let s1 = s\<lparr>calls := calls s @ [(m, timeout m)]\<rparr>
         in case race (timeout m) (playFunction m attempt) of
              Inr result \<Rightarrow> (Return result, s1\<lparr>mgr := recordSuccess m (mgr s1)\<rparr>)
            | Inl error \<Rightarrow>
                (let s2 = s1\<lparr>lastError := Some error\<rparr>
                 in if \<not> global_attemptStartTime
                    then (Throw (ReferenceError ''attemptStartTime is not defined''), s2)
                    else attempt_loop global_attemptStartTime playFunction m (attempt + 1)
                           (s2\<lparr>mgr := recordFailure m error (mgr s2)\<rparr>)))
      else (Normal, s))"
  by pat_completeness auto
termination
  by (relation "measure (\<lambda>(g, p, m, attempt, s). retries m - attempt)") auto

text \<open>The outer loop \<open>for (const method of methodsToTry)\<close>.\<close>

fun method_loop ::
  "bool \<Rightarrow> (play_method \<Rightarrow> nat \<Rightarrow> 'r play_outcome) \<Rightarrow> play_method list \<Rightarrow> exec_state
     \<Rightarrow> 'r completion \<times> exec_state" where
  "method_loop g playFunction [] s = (Normal, s)"
| "method_loop g playFunction (m # ms) s =
     (case attempt_loop g playFunction m 0 s of
        (Normal, s') \<Rightarrow> method_loop g playFunction ms s'
      | (Return result, s') \<Rightarrow> (Return result, s')
      | (Throw e, s') \<Rightarrow> (Throw e, s'))"

definition selected_first :: "play_method \<Rightarrow> play_method \<Rightarrow> play_method \<Rightarrow> rat" where
  "selected_first selectedMethod a b =
     (if name a = name selectedMethod then -1
      else if name b = name selectedMethod then 1
      else of_int (priority a - priority b))"

definition methodsToTry :: "play_method \<Rightarrow> manager \<Rightarrow> play_method list" where
  "methodsToTry selectedMethod st =
     js_sort (selected_first selectedMethod) (filter available (methods st))"

text \<open>\<open>lastError?.message || 'unknown error'\<close>\<close>

definition last_message :: "string option \<Rightarrow> string" where
  "last_message e = (case e of None \<Rightarrow> msg_unknown | Some msg \<Rightarrow> if msg = [] then msg_unknown else msg)"

definition start_state :: "manager \<Rightarrow> exec_state" where
  "start_state st = \<lparr>mgr = st, lastError = None, calls = []\<rparr>"

definition executeWithFallback ::
  "bool \<Rightarrow> (play_method \<Rightarrow> nat \<Rightarrow> 'r play_outcome) \<Rightarrow> manager \<Rightarrow> (js_error + 'r) \<times> exec_state" where
  "executeWithFallback g playFunction st =
     (case selectBestMethod st of
        (Inl e, st1) \<Rightarrow> (Inl e, start_state st1)
      | (Inr selectedMethod, st1) \<Rightarrow>
          (case method_loop g playFunction (methodsToTry selectedMethod st1) (start_state st1) of
             (Return result, s) \<Rightarrow> (Inr result, s)
           | (Throw e, s) \<Rightarrow> (Inl e, s)
           | (Normal, s) \<Rightarrow> (Inl (Error (msg_all_failed @ last_message (lastError s))), s)))"

section \<open>Sequences of recorded attempts\<close>

text \<open>
  The two recording methods are public; a history of recorded attempts is a list of
  events applied to the manager in order.
\<close>

datatype attempt_event = Succeeded play_method | Failed play_method string

fun record_event :: "attempt_event \<Rightarrow> manager \<Rightarrow> manager" where
  "record_event (Succeeded m) st = recordSuccess m st"
| "record_event (Failed m error) st = recordFailure m error st"

fun record_all :: "attempt_event list \<Rightarrow> manager \<Rightarrow> manager" where
  "record_all [] st = st"
| "record_all (ev # evs) st = record_all evs (record_event ev st)"

definition only_failures :: "manager \<Rightarrow> bool" where
  "only_failures st = list_all (\<lambda>a. \<not> ar_success a) (attemptHistory st)"

definition in_range :: "(string \<rightharpoonup> rat) \<Rightarrow> bool" where
  "in_range sr = (\<forall>n r. sr n = Some r \<longrightarrow> 0 \<le> r \<and> r \<le> 1)"

text \<open>The rate stored for a method, read as 0.5 when nothing is stored yet.\<close>

definition stored_rate :: "manager \<Rightarrow> string \<Rightarrow> rat" where
  "stored_rate st n = (case successRate (metrics st) n of None \<Rightarrow> 1 / 2 | Some r \<Rightarrow> r)"

section \<open>The update rule and the score as the specification words them\<close>

text \<open>
  The specification's exponential moving average
  \<open>new = old * (1 - alpha) + outcome * alpha\<close>, for comparison with the update in
  \<open>recordSuccess\<close> and \<open>recordFailure\<close>.
\<close>

definition ema_update :: "rat \<Rightarrow> rat \<Rightarrow> rat \<Rightarrow> rat" where
  "ema_update alpha old outcome = old * (1 - alpha) + outcome * alpha"

text \<open>
  The specification's score, \<open>0.7 * successRate + 0.3 * priorityScore\<close> with
  \<open>priorityScore = (maxPriorityValue - priority) / maxPriorityValue\<close>, and the order it
  describes: the available methods, sorted by descending score, ties in registration
  order.
\<close>

definition spec_priorityScore :: "rat \<Rightarrow> play_method \<Rightarrow> rat" where
  "spec_priorityScore maxPriorityValue m =
     (maxPriorityValue - of_int (priority m)) / maxPriorityValue"

definition spec_score :: "rat \<Rightarrow> manager \<Rightarrow> play_method \<Rightarrow> rat" where
  "spec_score maxPriorityValue st m =
     (7 / 10) * rate_or_default st (name m) + (3 / 10) * spec_priorityScore maxPriorityValue m"

definition spec_selectOrder :: "rat \<Rightarrow> manager \<Rightarrow> play_method list" where
  "spec_selectOrder maxPriorityValue st =
     sort_key (\<lambda>m. - spec_score maxPriorityValue st m) (filter available (methods st))"

section \<open>Notions used to state the properties\<close>

text \<open>
  The per-call copies of the available methods, in ascending priority (and registration
  order among equal priorities): the list that the history sort receives when the
  network is not slow.
\<close>

definition candidates :: "manager \<Rightarrow> play_method list" where
  "candidates st =
     map (optimizedMethod (getNetworkSpeedCategory st))
       (sort_key priority (filter available (methods st)))"

text \<open>The method list is the constructor's, up to the availability flags.\<close>

definition catalog_methods :: "manager \<Rightarrow> bool" where
  "catalog_methods st = (map (\<lambda>m. m\<lparr>available := False\<rparr>) (methods st) = constructor_methods)"

text \<open>The message with which attempt \<open>a\<close> of method \<open>m\<close> fails (empty if it succeeds).\<close>

definition attempt_error ::
  "(play_method \<Rightarrow> nat \<Rightarrow> 'r play_outcome) \<Rightarrow> play_method \<Rightarrow> nat \<Rightarrow> string" where
  "attempt_error p m a = (case race (timeout m) (p m a) of Inl e \<Rightarrow> e | Inr _ \<Rightarrow> [])"

text \<open>Every attempt within the retry budget of \<open>m\<close> fails.\<close>

definition attempts_fail :: "(play_method \<Rightarrow> nat \<Rightarrow> 'r play_outcome) \<Rightarrow> play_method \<Rightarrow> bool" where
  "attempts_fail p m = list_all (\<lambda>a. isl (race (timeout m) (p m a))) [0..<retries m]"

text \<open>
  The value of \<open>lastError\<close> after all methods of a plan have used up their attempts: the
  message of the last attempt made.
\<close>

fun last_failure ::
  "(play_method \<Rightarrow> nat \<Rightarrow> 'r play_outcome) \<Rightarrow> play_method list \<Rightarrow> string option
     \<Rightarrow> string option" where
  "last_failure p [] e = e"
| "last_failure p (m # ms) e =
     last_failure p ms (if 0 < retries m then Some (attempt_error p m (retries m - 1)) else e)"

text \<open>The calls of a plan in which every method uses its whole retry budget.\<close>

definition planned_calls :: "play_method list \<Rightarrow> (play_method \<times> rat) list" where
  "planned_calls ms = concat (map (\<lambda>m. replicate (retries m) (m, timeout m)) ms)"

text \<open>
  The operation does not settle before the timer of the attempt fires: it settles at or
  after the timeout of the method, or never.
\<close>

definition settles_late :: "play_method \<Rightarrow> 'r play_outcome \<Rightarrow> bool" where
  "settles_late m outcome =
     (case outcome of
        Resolves d _ \<Rightarrow> timeout m \<le> d
      | Rejects d _ \<Rightarrow> timeout m \<le> d
      | Pending \<Rightarrow> True)"

section \<open>Concrete managers and inputs used in the examples\<close>

definition dev_all :: device_info where
  "dev_all = [''webrtc_support'' \<mapsto> True, ''websocket_support'' \<mapsto> True]"

definition net_2g :: network_info where
  "net_2g = \<lparr>effective_type = ''2g'', downlink = None, bandwidth_estimate = None\<rparr>"

definition net_4g :: network_info where
  "net_4g = \<lparr>effective_type = ''4g'', downlink = None, bandwidth_estimate = None\<rparr>"

definition webrtc :: play_method where
  "webrtc = \<lparr>name = ''webrtc'', priority = 1, timeout = 10000, retries = 2,
     requirements = [''webrtc_support'', ''websocket_support''], available = True\<rparr>"

definition proxy :: play_method where
  "proxy = \<lparr>name = ''proxy'', priority = 2, timeout = 15000, retries = 3,
     requirements = [''proxy_server''], available = True\<rparr>"

definition transcode :: play_method where
  "transcode = \<lparr>name = ''transcode'', priority = 3, timeout = 30000, retries = 2,
     requirements = [''proxy_server'', ''ffmpeg_support''], available = True\<rparr>"

definition direct :: play_method where
  "direct = \<lparr>name = ''direct'', priority = 4, timeout = 20000, retries = 1,
     requirements = [], available = True\<rparr>"

definition dev_no_proxy :: device_info where
  "dev_no_proxy =
     [''webrtc_support'' \<mapsto> True, ''websocket_support'' \<mapsto> True,
      ''proxy_server'' \<mapsto> False, ''ffmpeg_support'' \<mapsto> False]"

definition slow_state :: manager where
  "slow_state = initializeCapabilityDetection dev_all net_2g constructor"

definition fast_state :: manager where
  "fast_state = initializeCapabilityDetection dev_all net_4g constructor"

definition no_proxy_state :: manager where
  "no_proxy_state = initializeCapabilityDetection dev_no_proxy net_4g constructor"

text \<open>A manager on a fast network on which \<open>proxy\<close> has succeeded twice.\<close>

definition rated_state :: manager where
  "rated_state = recordSuccess proxy (recordSuccess proxy fast_state)"

text \<open>A manager on a fast network on which \<open>transcode\<close> has succeeded five times.\<close>

definition proven_state :: manager where
  "proven_state =
     record_all [Succeeded transcode, Succeeded transcode, Succeeded transcode,
       Succeeded transcode, Succeeded transcode] fast_state"

text \<open>Play functions: \<open>webrtc\<close> is rejected after 5 ms, every other method resolves.\<close>

definition play_webrtc_rejects :: "play_method \<Rightarrow> nat \<Rightarrow> nat play_outcome" where
  "play_webrtc_rejects m a =
     (if name m = ''webrtc'' then Rejects 5 ''connection failed'' else Resolves 100 7)"

text \<open>Every call is rejected after 5 ms with a message chosen by the method name.\<close>

definition play_rejects :: "(string \<Rightarrow> string) \<Rightarrow> play_method \<Rightarrow> nat \<Rightarrow> nat play_outcome" where
  "play_rejects msgs m a = Rejects 5 (msgs (name m))"

definition msgs_a :: "string \<Rightarrow> string" where
  "msgs_a n = ''error in '' @ n"

definition msgs_b :: "string \<Rightarrow> string" where
  "msgs_b n = (if n = ''webrtc'' then ''handshake refused'' else ''error in '' @ n)"

text \<open>
  \<open>webrtc\<close> resolves two seconds after its timeout (respectively never), every other
  method resolves in time.
\<close>

definition play_webrtc_late :: "play_method \<Rightarrow> nat \<Rightarrow> nat play_outcome" where
  "play_webrtc_late m a =
     (if name m = ''webrtc'' then Resolves (timeout m + 2000) 42 else Resolves 100 7)"

definition play_webrtc_never :: "play_method \<Rightarrow> nat \<Rightarrow> nat play_outcome" where
  "play_webrtc_never m a = (if name m = ''webrtc'' then Pending else Resolves 100 7)"

section \<open>Properties of the recording methods\<close>

lemma attemptHistory_updateMetrics [simp]: "attemptHistory (updateMetrics st) = attemptHistory st"
  by (simp add: updateMetrics_def Let_def)

lemma successRate_updateMetrics [simp]:
  "successRate (metrics (updateMetrics st)) = successRate (metrics st)"
  by (simp add: updateMetrics_def Let_def)

lemma connectionTime_updateMetrics [simp]:
  "connectionTime (metrics (updateMetrics st)) = connectionTime (metrics st)"
  by (simp add: updateMetrics_def Let_def)

lemma methods_updateMetrics [simp]: "methods (updateMetrics st) = methods st"
  by (simp add: updateMetrics_def Let_def)

lemma attemptHistory_recordSuccess: "attemptHistory (recordSuccess m st) = attemptHistory st"
  by (simp add: recordSuccess_def Let_def)

lemma attemptHistory_recordFailure:
  "attemptHistory (recordFailure m e st) =
     push_limited 50 \<lparr>ar_method = name m, ar_success = False, ar_error = e\<rparr> (attemptHistory st)"
  by (simp add: recordFailure_def Let_def)

lemma connectionTime_recordSuccess:
  "connectionTime (metrics (recordSuccess m st)) =
     push_limited 100 \<lparr>cr_method = name m\<rparr> (connectionTime (metrics st))"
  by (simp add: recordSuccess_def Let_def)

lemma connectionTime_recordFailure:
  "connectionTime (metrics (recordFailure m e st)) = connectionTime (metrics st)"
  by (simp add: recordFailure_def Let_def)

lemma methods_recordSuccess: "methods (recordSuccess m st) = methods st"
  by (simp add: recordSuccess_def Let_def)

lemma methods_recordFailure: "methods (recordFailure m e st) = methods st"
  by (simp add: recordFailure_def Let_def)

lemma successRate_recordSuccess:
  "successRate (metrics (recordSuccess m st)) =
     updateRate (\<lambda>r. min 1 (r + 1 / 10)) (name m) (initRate (name m) (successRate (metrics st)))"
  by (simp add: recordSuccess_def Let_def)

lemma successRate_recordFailure:
  "successRate (metrics (recordFailure m e st)) =
     updateRate (\<lambda>r. max 0 (r - 1 / 10)) (name m) (initRate (name m) (successRate (metrics st)))"
  by (simp add: recordFailure_def Let_def)

lemma set_push_limited: "set (push_limited k x xs) \<subseteq> insert x (set xs)"
  by (auto simp: push_limited_def Let_def dest: list.set_sel(2)[rotated])

subsection \<open>The attempt history holds failures only\<close>

lemma only_failures_recordSuccess: "only_failures st \<Longrightarrow> only_failures (recordSuccess m st)"
  by (simp add: only_failures_def attemptHistory_recordSuccess)

lemma only_failures_recordFailure: "only_failures st \<Longrightarrow> only_failures (recordFailure m e st)"
  using set_push_limited[of 50 "\<lparr>ar_method = name m, ar_success = False, ar_error = e\<rparr>" "attemptHistory st"]
  by (auto simp: only_failures_def attemptHistory_recordFailure list_all_iff)

lemma only_failures_record_event: "only_failures st \<Longrightarrow> only_failures (record_event ev st)"
  by (cases ev) (simp_all add: only_failures_recordSuccess only_failures_recordFailure)

lemma only_failures_record_all: "only_failures st \<Longrightarrow> only_failures (record_all evs st)"
  by (induction evs arbitrary: st) (simp_all add: only_failures_record_event)

lemma only_failures_constructor: "only_failures constructor"
  by (simp add: only_failures_def constructor_def)

lemma slice_last_Nil_iff: "0 < k \<Longrightarrow> slice_last k xs = [] \<longleftrightarrow> xs = []"
  by (cases xs) (auto simp: slice_last_def)

lemma errorRate_updateMetrics:
  assumes "only_failures st"
  shows "errorRate (metrics (updateMetrics st)) = (if attemptHistory st = [] then 0 else 1)"
proof -
  let ?recent = "slice_last 20 (attemptHistory st)"
  have "set ?recent \<subseteq> set (attemptHistory st)"
    by (simp add: slice_last_def set_drop_subset)
  with assms have "filter (\<lambda>a. \<not> ar_success a) ?recent = ?recent"
    by (intro filter_True) (auto simp: only_failures_def list_all_iff)
  moreover have "?recent = [] \<longleftrightarrow> attemptHistory st = []"
    by (simp add: slice_last_Nil_iff)
  ultimately show ?thesis
    by (simp add: updateMetrics_def Let_def)
qed

lemma errorRate_record_event:
  assumes "only_failures st"
  shows "errorRate (metrics (record_event ev st)) =
           (if attemptHistory (record_event ev st) = [] then 0 else 1)"
proof (cases ev)
  case (Succeeded m)
  let ?st1 = "st\<lparr>metrics := (metrics st)\<lparr>successRate :=
                 updateRate (\<lambda>r. min 1 (r + 1 / 10)) (name m)
                   (initRate (name m) (successRate (metrics st))),
               connectionTime :=
                 push_limited 100 \<lparr>cr_method = name m\<rparr> (connectionTime (metrics st))\<rparr>\<rparr>"
  have "only_failures ?st1"
    using assms by (simp add: only_failures_def)
  from errorRate_updateMetrics[OF this] show ?thesis
    using Succeeded by (simp add: recordSuccess_def Let_def)
next
  case (Failed m e)
  let ?st1 = "st\<lparr>metrics := (metrics st)\<lparr>successRate :=
                 updateRate (\<lambda>r. max 0 (r - 1 / 10)) (name m)
                   (initRate (name m) (successRate (metrics st)))\<rparr>,
               attemptHistory :=
                 push_limited 50 \<lparr>ar_method = name m, ar_success = False, ar_error = e\<rparr>
                   (attemptHistory st)\<rparr>"
  have "only_failures (recordFailure m e st)"
    using assms by (rule only_failures_recordFailure)
  then have "only_failures ?st1"
    by (simp add: only_failures_def attemptHistory_recordFailure)
  from errorRate_updateMetrics[OF this] show ?thesis
    using Failed by (simp add: recordFailure_def Let_def)
qed

lemma record_all_snoc: "record_all (evs @ [ev]) st = record_event ev (record_all evs st)"
  by (induction evs arbitrary: st) simp_all

text \<open>
  Claim C10. A success never touches the attempt history, so the history of a manager
  holds failed attempts only, whatever successes and failures have been recorded since
  construction; and after every recorded attempt the error rate is 1 when the history
  is not empty (0 when it is).
\<close>

theorem errorRate_zero_or_one:
  "attemptHistory (recordSuccess m st) = attemptHistory st \<and>
   list_all (\<lambda>a. \<not> ar_success a) (attemptHistory (record_all evs constructor)) \<and>
   (evs \<noteq> [] \<longrightarrow>
      errorRate (metrics (record_all evs constructor)) =
        (if attemptHistory (record_all evs constructor) = [] then 0 else 1))"
proof (intro conjI impI)
  show "attemptHistory (recordSuccess m st) = attemptHistory st"
    by (rule attemptHistory_recordSuccess)
  show "list_all (\<lambda>a. \<not> ar_success a) (attemptHistory (record_all evs constructor))"
    using only_failures_record_all[OF only_failures_constructor, of evs]
    by (simp add: only_failures_def)
  assume "evs \<noteq> []"
  then obtain evs' ev where evs: "evs = evs' @ [ev]"
    by (cases evs rule: rev_cases) auto
  have "only_failures (record_all evs' constructor)"
    by (rule only_failures_record_all[OF only_failures_constructor])
  from errorRate_record_event[OF this, of ev]
  show "errorRate (metrics (record_all evs constructor)) =
        (if attemptHistory (record_all evs constructor) = [] then 0 else 1)"
    by (simp add: evs record_all_snoc)
qed

theorem errorRate_zero_or_one_witness:
  "[Failed webrtc ''e'', Succeeded webrtc] \<noteq> [] \<and>
   attemptHistory (record_all [Failed webrtc ''e'', Succeeded webrtc] constructor) \<noteq> [] \<and>
   errorRate (metrics (record_all [Failed webrtc ''e'', Succeeded webrtc] constructor)) = 1"
  using errorRate_zero_or_one[of webrtc constructor "[Failed webrtc ''e'', Succeeded webrtc]"]
  by (simp add: attemptHistory_recordSuccess attemptHistory_recordFailure push_limited_def
      constructor_def)

subsection \<open>The success rate moves in steps of one tenth and stays between 0 and 1\<close>

lemma in_range_initRate: "in_range sr \<Longrightarrow> in_range (initRate n sr)"
  by (auto simp: in_range_def initRate_def split: option.splits if_splits)

lemma in_range_updateRate:
  assumes "in_range sr" and "\<And>r. 0 \<le> r \<Longrightarrow> r \<le> 1 \<Longrightarrow> 0 \<le> f r \<and> f r \<le> 1"
  shows "in_range (updateRate f n sr)"
  using assms by (auto simp: in_range_def updateRate_def split: option.splits if_splits)

lemma in_range_record_event:
  assumes "in_range (successRate (metrics st))"
  shows "in_range (successRate (metrics (record_event ev st)))"
proof (cases ev)
  case (Succeeded m)
  then show ?thesis
    using assms
    by (auto simp: successRate_recordSuccess intro!: in_range_updateRate in_range_initRate)
next
  case (Failed m e)
  then show ?thesis
    using assms
    by (auto simp: successRate_recordFailure intro!: in_range_updateRate in_range_initRate)
qed

lemma in_range_record_all:
  "in_range (successRate (metrics st)) \<Longrightarrow> in_range (successRate (metrics (record_all evs st)))"
  by (induction evs arbitrary: st) (simp_all add: in_range_record_event)

lemma in_range_constructor: "in_range (successRate (metrics constructor))"
  by (simp add: in_range_def constructor_def empty_metrics_def)

text \<open>
  Claim C3, as stated, fails: from 0.5 a recorded success gives 0.6 and a recorded
  failure gives 0.4, where the moving average with alpha 0.1 would give 0.55 and 0.45.
\<close>

theorem ema_counterexample:
  "successRate (metrics (recordSuccess webrtc constructor)) ''webrtc'' = Some (6 / 10) \<and>
   ema_update (1 / 10) (1 / 2) 1 = 55 / 100 \<and>
   successRate (metrics (recordFailure webrtc ''e'' constructor)) ''webrtc'' = Some (4 / 10) \<and>
   ema_update (1 / 10) (1 / 2) 0 = 45 / 100"
  by (simp add: successRate_recordSuccess successRate_recordFailure updateRate_def initRate_def
      constructor_def empty_metrics_def webrtc_def ema_update_def)

text \<open>
  Claim C3, amended. The update is additive: for a method whose stored rate is not 0, a
  recorded success sets the rate to \<open>min 1 (old + 0.1)\<close> and a recorded failure to
  \<open>max 0 (old - 0.1)\<close>, where \<open>old\<close> is the stored rate, read as 0.5 on the first
  observation. After any sequence of recorded attempts on a new manager every stored
  rate lies between 0 and 1.
\<close>

theorem successRate_additive_step:
  "(successRate (metrics st) (name m) \<noteq> Some 0 \<longrightarrow>
      successRate (metrics (recordSuccess m st)) (name m) =
        Some (min 1 (stored_rate st (name m) + 1 / 10)) \<and>
      successRate (metrics (recordFailure m e st)) (name m) =
        Some (max 0 (stored_rate st (name m) - 1 / 10))) \<and>
   (successRate (metrics (record_all evs constructor)) n = Some r \<longrightarrow> 0 \<le> r \<and> r \<le> 1)"
proof (intro conjI impI)
  assume nz: "successRate (metrics st) (name m) \<noteq> Some 0"
  show "successRate (metrics (recordSuccess m st)) (name m) =
          Some (min 1 (stored_rate st (name m) + 1 / 10))"
    using nz by (cases "successRate (metrics st) (name m)")
      (simp_all add: successRate_recordSuccess updateRate_def initRate_def stored_rate_def)
  show "successRate (metrics (recordFailure m e st)) (name m) =
          Some (max 0 (stored_rate st (name m) - 1 / 10))"
    using nz by (cases "successRate (metrics st) (name m)")
      (simp_all add: successRate_recordFailure updateRate_def initRate_def stored_rate_def)
next
  assume "successRate (metrics (record_all evs constructor)) n = Some r"
  with in_range_record_all[OF in_range_constructor, of evs]
  show "0 \<le> r" by (simp add: in_range_def)
next
  assume "successRate (metrics (record_all evs constructor)) n = Some r"
  with in_range_record_all[OF in_range_constructor, of evs]
  show "r \<le> 1" by (simp add: in_range_def)
qed

theorem successRate_additive_step_witness:
  "successRate (metrics constructor) (name webrtc) \<noteq> Some 0 \<and>
   successRate (metrics (recordSuccess webrtc constructor)) (name webrtc) = Some (6 / 10) \<and>
   successRate (metrics (recordFailure webrtc ''e'' constructor)) (name webrtc) = Some (4 / 10) \<and>
   successRate (metrics (record_all [Failed webrtc ''e'', Succeeded webrtc, Succeeded webrtc]
     constructor)) ''webrtc'' = Some (6 / 10) \<and>
   (0::rat) \<le> 6 / 10 \<and> (6 / 10 :: rat) \<le> 1"
  using successRate_additive_step[of constructor webrtc "''e''"
      "[Failed webrtc ''e'', Succeeded webrtc, Succeeded webrtc]" "''webrtc''" "6 / 10"]
  by (simp add: successRate_recordSuccess successRate_recordFailure updateRate_def initRate_def
      constructor_def empty_metrics_def webrtc_def stored_rate_def)

section \<open>Properties of the selection\<close>

subsection \<open>Sorting with a comparator that compares keys\<close>

lemma js_insort_key:
  assumes "\<And>a b. compare a b \<le> 0 \<longleftrightarrow> f a \<le> f b"
  shows "js_insort compare x ys = insort_key f x ys"
  by (induction ys) (simp_all add: assms)

lemma js_sort_key:
  assumes "\<And>a b. compare a b \<le> 0 \<longleftrightarrow> f a \<le> f b"
  shows "js_sort compare xs = sort_key f xs"
proof -
  have "js_insort compare = insort_key f"
    by (intro ext) (rule js_insort_key[OF assms])
  then show ?thesis
    by (simp add: js_sort_def sort_key_def)
qed

lemma js_sort_by_priority: "js_sort by_priority xs = sort_key priority xs"
  by (rule js_sort_key) (simp add: by_priority_def)

lemma js_sort_by_network:
  "sp \<noteq> Slow \<Longrightarrow> js_sort (by_network sp) xs = sort_key priority xs"
  by (rule js_sort_key) (simp add: by_network_def)

lemma js_sort_by_history: "js_sort (by_history st) xs = sort_key (\<lambda>m. - score st m) xs"
  by (rule js_sort_key) (simp add: by_history_def)

lemma set_js_insort: "set (js_insort compare x ys) = insert x (set ys)"
  by (induction ys) auto

lemma set_js_sort: "set (js_sort compare xs) = set xs"
  by (induction xs) (simp_all add: js_sort_def set_js_insort)

lemma distinct_js_insort: "distinct (js_insort compare x ys) \<longleftrightarrow> x \<notin> set ys \<and> distinct ys"
  by (induction ys) (auto simp: set_js_insort)

lemma distinct_js_sort: "distinct (js_sort compare xs) \<longleftrightarrow> distinct xs"
  by (induction xs) (simp_all add: js_sort_def distinct_js_insort set_js_sort[unfolded js_sort_def])

lemma length_js_insort: "length (js_insort compare x ys) = Suc (length ys)"
  by (induction ys) simp_all

lemma length_js_sort: "length (js_sort compare xs) = length xs"
  by (induction xs) (simp_all add: js_sort_def length_js_insort)

subsection \<open>The per-call copies\<close>

lemma priority_optimizedMethod [simp]: "priority (optimizedMethod sp m) = priority m"
  by (cases sp) (simp_all add: optimizedMethod_def)

lemma name_optimizedMethod [simp]: "name (optimizedMethod sp m) = name m"
  by (cases sp) (simp_all add: optimizedMethod_def)

lemma requirements_optimizedMethod [simp]:
  "requirements (optimizedMethod sp m) = requirements m"
  by (cases sp) (simp_all add: optimizedMethod_def)

lemma available_optimizedMethod [simp]: "available (optimizedMethod sp m) = available m"
  by (cases sp) (simp_all add: optimizedMethod_def)

lemma optimizedMethod_Unknown [simp]: "optimizedMethod Unknown = (\<lambda>m. m)"
  by (simp add: optimizedMethod_def fun_eq_iff)

lemma score_optimizedMethod [simp]: "score st (optimizedMethod sp m) = score st m"
  by (simp add: score_def)

lemma optimizeMethodsByNetwork_Some:
  "networkInfo st = Some ni \<Longrightarrow>
   optimizeMethodsByNetwork st ms =
     js_sort (by_network (getNetworkSpeedCategory st))
       (map (optimizedMethod (getNetworkSpeedCategory st)) ms)"
  by (simp add: optimizeMethodsByNetwork_def Let_def)

subsection \<open>The order when the network is not slow\<close>

lemma optimizeMethodsByNetwork_not_slow:
  assumes "getNetworkSpeedCategory st \<noteq> Slow"
  shows "optimizeMethodsByNetwork st (availableMethods st) = candidates st"
proof (cases "networkInfo st")
  case None
  then have "getNetworkSpeedCategory st = Unknown"
    by (simp add: getNetworkSpeedCategory_def)
  with None show ?thesis
    by (simp add: optimizeMethodsByNetwork_def availableMethods_def candidates_def
        js_sort_by_priority)
next
  case (Some ni)
  let ?sp = "getNetworkSpeedCategory st"
  let ?ys = "sort_key priority (filter available (methods st))"
  have "sorted (map priority (map (optimizedMethod ?sp) ?ys))"
    by (simp add: comp_def)
  then have "sort_key priority (map (optimizedMethod ?sp) ?ys) = map (optimizedMethod ?sp) ?ys"
    by (rule sort_key_id_if_sorted)
  with Some assms show ?thesis
    by (simp add: optimizeMethodsByNetwork_def availableMethods_def candidates_def Let_def
        js_sort_by_priority js_sort_by_network)
qed

lemma selectOrder_not_slow:
  "getNetworkSpeedCategory st \<noteq> Slow \<Longrightarrow>
   selectOrder st = sort_key (\<lambda>m. - score st m) (candidates st)"
  by (simp add: selectOrder_def optimizeMethodsByNetwork_not_slow optimizeMethodsByHistory_def
      js_sort_by_history)

lemma higher_score_first:
  assumes srt: "sorted (map (\<lambda>m. - score st m) xs)"
    and i: "i < length xs" and j: "j < length xs"
    and lt: "score st (xs ! j) < score st (xs ! i)"
  shows "i < j"
proof (rule ccontr)
  assume "\<not> i < j"
  then have "j \<le> i" by simp
  with srt i have "map (\<lambda>m. - score st m) xs ! j \<le> map (\<lambda>m. - score st m) xs ! i"
    by (intro sorted_nth_mono) simp_all
  with i j lt show False by simp
qed

lemma score_priority_1_2:
  assumes "priority a = 1" and "priority b = 2"
    and "rate_or_default st (name a) = rate_or_default st (name b)"
  shows "score st b < score st a"
  unfolding score_def using assms by simp

subsection \<open>The concrete managers\<close>

lemmas method_defs = webrtc_def proxy_def transcode_def direct_def

lemma methods_detected:
  "methods (initializeCapabilityDetection dev net constructor) =
     [webrtc\<lparr>available :=
        truthy_cap (Some dev) ''webrtc_support'' \<and> truthy_cap (Some dev) ''websocket_support''\<rparr>,
      proxy, transcode, direct]"
  by (simp add: initializeCapabilityDetection_def detectMethodAvailability_def constructor_def
      constructor_methods_def checkMethodRequirements_def method_defs)

lemma networkInfo_detected [simp]:
  "networkInfo (initializeCapabilityDetection dev net st) = Some net"
  by (simp add: initializeCapabilityDetection_def detectMethodAvailability_def)

lemma deviceInfo_detected [simp]:
  "deviceInfo (initializeCapabilityDetection dev net st) = Some dev"
  by (simp add: initializeCapabilityDetection_def detectMethodAvailability_def)

lemma metrics_detected [simp]:
  "metrics (initializeCapabilityDetection dev net st) = metrics st"
  by (simp add: initializeCapabilityDetection_def detectMethodAvailability_def)

lemma attemptHistory_detected [simp]:
  "attemptHistory (initializeCapabilityDetection dev net st) = attemptHistory st"
  by (simp add: initializeCapabilityDetection_def detectMethodAvailability_def)

lemma methods_slow_state: "methods slow_state = [webrtc, proxy, transcode, direct]"
  by (simp add: slow_state_def methods_detected truthy_cap_def dev_all_def)
     (simp add: webrtc_def)

lemma methods_fast_state: "methods fast_state = [webrtc, proxy, transcode, direct]"
  by (simp add: fast_state_def methods_detected truthy_cap_def dev_all_def)
     (simp add: webrtc_def)

lemma methods_no_proxy_state: "methods no_proxy_state = [webrtc, proxy, transcode, direct]"
  by (simp add: no_proxy_state_def methods_detected truthy_cap_def dev_no_proxy_def)
     (simp add: webrtc_def)

lemma methods_rated_state: "methods rated_state = [webrtc, proxy, transcode, direct]"
  by (simp add: rated_state_def methods_recordSuccess methods_fast_state)

lemma networkInfo_recordSuccess [simp]: "networkInfo (recordSuccess m st) = networkInfo st"
  by (simp add: recordSuccess_def updateMetrics_def Let_def)

lemma networkInfo_recordFailure [simp]: "networkInfo (recordFailure m e st) = networkInfo st"
  by (simp add: recordFailure_def updateMetrics_def Let_def)

lemma getNetworkSpeedCategory_cong:
  "networkInfo st = networkInfo st' \<Longrightarrow> getNetworkSpeedCategory st = getNetworkSpeedCategory st'"
  by (simp add: getNetworkSpeedCategory_def)

lemma speed_slow_state: "getNetworkSpeedCategory slow_state = Slow"
  by (simp add: getNetworkSpeedCategory_def slow_state_def net_2g_def)

lemma speed_fast_state: "getNetworkSpeedCategory fast_state = Fast"
  by (simp add: getNetworkSpeedCategory_def fast_state_def net_4g_def)

lemma speed_no_proxy_state: "getNetworkSpeedCategory no_proxy_state = Fast"
  by (simp add: getNetworkSpeedCategory_def no_proxy_state_def net_4g_def)

lemma speed_rated_state: "getNetworkSpeedCategory rated_state = Fast"
  by (simp add: getNetworkSpeedCategory_def rated_state_def fast_state_def net_4g_def)

lemma rates_constructor: "successRate (metrics constructor) = Map.empty"
  by (simp add: constructor_def empty_metrics_def)

lemma rates_slow_state: "successRate (metrics slow_state) = Map.empty"
  by (simp add: slow_state_def rates_constructor)

lemma rates_fast_state: "successRate (metrics fast_state) = Map.empty"
  by (simp add: fast_state_def rates_constructor)

lemma rates_no_proxy_state: "successRate (metrics no_proxy_state) = Map.empty"
  by (simp add: no_proxy_state_def rates_constructor)

lemma rates_rated_state: "successRate (metrics rated_state) = [''proxy'' \<mapsto> 7 / 10]"
  by (simp add: rated_state_def successRate_recordSuccess rates_fast_state initRate_def
      updateRate_def proxy_def)

lemma availableMethods_all:
  "methods st = [webrtc, proxy, transcode, direct] \<Longrightarrow>
   availableMethods st = [webrtc, proxy, transcode, direct]"
  by (simp add: availableMethods_def js_sort_def by_priority_def method_defs)

lemma network_order_slow:
  "js_sort (by_network Slow) (map (optimizedMethod Slow) [webrtc, proxy, transcode, direct]) =
     map (optimizedMethod Slow) [direct, proxy, transcode, webrtc]"
  by (simp add: js_sort_def by_network_def lightweightOrder_def method_defs)

lemma network_order_fast:
  "js_sort (by_network Fast) (map (optimizedMethod Fast) [webrtc, proxy, transcode, direct]) =
     map (optimizedMethod Fast) [webrtc, proxy, transcode, direct]"
  by (simp add: js_sort_def by_network_def method_defs)

lemma history_order_fresh:
  assumes "successRate (metrics st) = Map.empty"
  shows "optimizeMethodsByHistory st (map (optimizedMethod sp) [direct, proxy, transcode, webrtc]) =
           map (optimizedMethod sp) [webrtc, proxy, transcode, direct]"
    and "optimizeMethodsByHistory st (map (optimizedMethod sp) [webrtc, proxy, transcode, direct]) =
           map (optimizedMethod sp) [webrtc, proxy, transcode, direct]"
  using assms
  by (simp_all add: optimizeMethodsByHistory_def js_sort_def by_history_def score_def
      rate_or_default_def method_defs)

lemma selectOrder_slow_state:
  "selectOrder slow_state = map (optimizedMethod Slow) [webrtc, proxy, transcode, direct]"
  by (simp only: selectOrder_def availableMethods_all[OF methods_slow_state]
      optimizeMethodsByNetwork_Some[of slow_state net_2g, unfolded slow_state_def,
        OF networkInfo_detected, folded slow_state_def]
      speed_slow_state network_order_slow history_order_fresh(1)[OF rates_slow_state])

lemma selectOrder_fast_state:
  "selectOrder fast_state = map (optimizedMethod Fast) [webrtc, proxy, transcode, direct]"
  by (simp only: selectOrder_def availableMethods_all[OF methods_fast_state]
      optimizeMethodsByNetwork_Some[of fast_state net_4g, unfolded fast_state_def,
        OF networkInfo_detected, folded fast_state_def]
      speed_fast_state network_order_fast history_order_fresh(2)[OF rates_fast_state])

lemma selectOrder_no_proxy_state:
  "selectOrder no_proxy_state = map (optimizedMethod Fast) [webrtc, proxy, transcode, direct]"
  by (simp only: selectOrder_def availableMethods_all[OF methods_no_proxy_state]
      optimizeMethodsByNetwork_Some[of no_proxy_state net_4g, unfolded no_proxy_state_def,
        OF networkInfo_detected, folded no_proxy_state_def]
      speed_no_proxy_state network_order_fast history_order_fresh(2)[OF rates_no_proxy_state])

lemma names_of_copies:
  "map name (map (optimizedMethod sp) [webrtc, proxy, transcode, direct]) =
     [''webrtc'', ''proxy'', ''transcode'', ''direct'']"
  "map name (map (optimizedMethod sp) [direct, proxy, transcode, webrtc]) =
     [''direct'', ''proxy'', ''transcode'', ''webrtc'']"
  by (simp_all add: method_defs)

text \<open>
  Claim C1 fails on the code. On a slow network with all four methods available and no
  recorded attempts, the network step does produce the lightweight-first order, but the
  history step that follows sorts it again by score, and the resulting order is
  webrtc, proxy, transcode, direct: the reverse of the lightweight-first list on its
  first and last entries.
\<close>

theorem slow_network_order_follows_score:
  "getNetworkSpeedCategory slow_state = Slow \<and>
   map name (filter available (methods slow_state)) =
     [''webrtc'', ''proxy'', ''transcode'', ''direct''] \<and>
   map name (optimizeMethodsByNetwork slow_state (availableMethods slow_state)) =
     [''direct'', ''proxy'', ''transcode'', ''webrtc''] \<and>
   map name (selectOrder slow_state) = [''webrtc'', ''proxy'', ''transcode'', ''direct'']"
proof -
  have "map name (filter available (methods slow_state)) =
      [''webrtc'', ''proxy'', ''transcode'', ''direct'']"
    by (simp add: methods_slow_state method_defs)
  moreover have "optimizeMethodsByNetwork slow_state (availableMethods slow_state) =
      map (optimizedMethod Slow) [direct, proxy, transcode, webrtc]"
    by (simp only: availableMethods_all[OF methods_slow_state]
        optimizeMethodsByNetwork_Some[of slow_state net_2g, unfolded slow_state_def,
          OF networkInfo_detected, folded slow_state_def]
        speed_slow_state network_order_slow)
  ultimately show ?thesis
    by (simp only: speed_slow_state selectOrder_slow_state names_of_copies simp_thms)
qed

text \<open>
  Claim C4 fails on the code. The method \<open>proxy\<close> requires \<open>proxy_server\<close>. With a
  capability set that holds \<open>false\<close> for \<open>proxy_server\<close> and \<open>ffmpeg_support\<close>, and also
  with the set that the device probe produces (which has no such keys), \<open>proxy\<close> and
  \<open>transcode\<close> are in the selection output all the same.
\<close>

theorem unchecked_requirement_still_selected:
  "''proxy_server'' \<in> set (requirements proxy) \<and>
   \<not> truthy_cap (deviceInfo no_proxy_state) ''proxy_server'' \<and>
   map name (selectOrder no_proxy_state) = [''webrtc'', ''proxy'', ''transcode'', ''direct''] \<and>
   \<not> truthy_cap (deviceInfo fast_state) ''proxy_server'' \<and>
   map name (selectOrder fast_state) = [''webrtc'', ''proxy'', ''transcode'', ''direct'']"
proof -
  have c: "\<not> truthy_cap (deviceInfo no_proxy_state) ''proxy_server''"
    by (simp add: no_proxy_state_def truthy_cap_def dev_no_proxy_def)
  have d: "\<not> truthy_cap (deviceInfo fast_state) ''proxy_server''"
    by (simp add: fast_state_def truthy_cap_def dev_all_def)
  have e: "''proxy_server'' \<in> set (requirements proxy)"
    by (simp add: proxy_def)
  show ?thesis
    using c d e
    by (simp only: selectOrder_no_proxy_state selectOrder_fast_state names_of_copies simp_thms)
qed

text \<open>
  Claim C5, as stated, fails: with \<open>proxy\<close> at success rate 0.7 and \<open>webrtc\<close> unseen on a
  fast network, the code orders \<open>webrtc\<close> first, while the specification's normalised
  score orders \<open>proxy\<close> first, for a maximal priority value of 4 as well as of 5.
\<close>

theorem normalised_score_counterexample:
  "getNetworkSpeedCategory rated_state = Fast \<and>
   map name (selectOrder rated_state) = [''webrtc'', ''proxy'', ''transcode'', ''direct''] \<and>
   map name (spec_selectOrder 5 rated_state) = [''proxy'', ''webrtc'', ''transcode'', ''direct''] \<and>
   map name (spec_selectOrder 4 rated_state) = [''proxy'', ''webrtc'', ''transcode'', ''direct'']"
proof -
  have ni: "networkInfo rated_state = Some net_4g"
    by (simp add: rated_state_def fast_state_def)
  have "optimizeMethodsByHistory rated_state
          (map (optimizedMethod Fast) [webrtc, proxy, transcode, direct]) =
        map (optimizedMethod Fast) [webrtc, proxy, transcode, direct]"
    by (simp add: optimizeMethodsByHistory_def js_sort_def by_history_def score_def
        rate_or_default_def rates_rated_state method_defs)
  then have "selectOrder rated_state = map (optimizedMethod Fast) [webrtc, proxy, transcode, direct]"
    by (simp only: selectOrder_def availableMethods_all[OF methods_rated_state]
        optimizeMethodsByNetwork_Some[OF ni] speed_rated_state network_order_fast)
  moreover have "map name (spec_selectOrder 5 rated_state) =
      [''proxy'', ''webrtc'', ''transcode'', ''direct'']"
    by (simp add: spec_selectOrder_def methods_rated_state spec_score_def spec_priorityScore_def
        rate_or_default_def rates_rated_state method_defs)
  moreover have "map name (spec_selectOrder 4 rated_state) =
      [''proxy'', ''webrtc'', ''transcode'', ''direct'']"
    by (simp add: spec_selectOrder_def methods_rated_state spec_score_def spec_priorityScore_def
        rate_or_default_def rates_rated_state method_defs)
  ultimately show ?thesis
    by (simp only: speed_rated_state names_of_copies simp_thms)
qed

lemma rate_or_default_stored:
  "successRate (metrics st) n \<noteq> Some 0 \<Longrightarrow> rate_or_default st n = stored_rate st n"
  by (cases "successRate (metrics st) n") (simp_all add: rate_or_default_def stored_rate_def)

lemma score_stored:
  assumes "\<forall>n. successRate (metrics st) n \<noteq> Some 0"
  shows "score st m = stored_rate st (name m) * (7 / 10) + of_int (5 - priority m) * (3 / 10)"
  using assms by (simp add: score_def rate_or_default_stored)

lemma methods_proven_state: "methods proven_state = [webrtc, proxy, transcode, direct]"
  by (simp add: proven_state_def methods_recordSuccess methods_fast_state)

lemma networkInfo_proven_state: "networkInfo proven_state = Some net_4g"
  by (simp add: proven_state_def fast_state_def)

lemma speed_proven_state: "getNetworkSpeedCategory proven_state = Fast"
  by (simp add: getNetworkSpeedCategory_def networkInfo_proven_state net_4g_def)

lemma rates_proven_state: "successRate (metrics proven_state) = [''transcode'' \<mapsto> 1]"
  by (simp add: proven_state_def successRate_recordSuccess rates_fast_state initRate_def
      updateRate_def transcode_def)

lemma selectOrder_proven_state:
  "selectOrder proven_state = map (optimizedMethod Fast) [webrtc, transcode, proxy, direct]"
proof -
  have "optimizeMethodsByHistory proven_state
          (map (optimizedMethod Fast) [webrtc, proxy, transcode, direct]) =
        map (optimizedMethod Fast) [webrtc, transcode, proxy, direct]"
    by (simp add: optimizeMethodsByHistory_def js_sort_def by_history_def score_def
        rate_or_default_def rates_proven_state method_defs)
  then show ?thesis
    by (simp only: selectOrder_def availableMethods_all[OF methods_proven_state]
        optimizeMethodsByNetwork_Some[OF networkInfo_proven_state] speed_proven_state
        network_order_fast)
qed

lemma candidates_proven_state:
  "candidates proven_state = map (optimizedMethod Fast) [webrtc, proxy, transcode, direct]"
  by (simp add: candidates_def speed_proven_state methods_proven_state) (simp add: method_defs)

text \<open>
  Claim C5, amended. When the network is not slow and no stored success rate is 0, the
  selection is the list of per-call copies of the available methods, sorted (stably) by
  descending score, where \<open>score = 0.7 * successRate + 0.3 * (5 - priority)\<close> and the
  success rate counts as 0.5 when none is stored; equal scores keep the ascending
  priority order, and within it the registration order. In particular a method of
  priority 1 comes before a method of priority 2 with the same success rate.
\<close>

theorem selectOrder_by_score:
  assumes "getNetworkSpeedCategory st \<noteq> Slow"
    and "\<forall>n. successRate (metrics st) n \<noteq> Some 0"
  shows "selectOrder st =
           sort_key (\<lambda>m. - (stored_rate st (name m) * (7 / 10) + of_int (5 - priority m) * (3 / 10)))
             (candidates st) \<and>
         (\<forall>i j. i < length (selectOrder st) \<and> j < length (selectOrder st) \<and>
            priority (selectOrder st ! i) = 1 \<and> priority (selectOrder st ! j) = 2 \<and>
            stored_rate st (name (selectOrder st ! i)) = stored_rate st (name (selectOrder st ! j))
            \<longrightarrow> i < j)"
proof (intro conjI allI impI)
  have sc: "score st = (\<lambda>m. stored_rate st (name m) * (7 / 10) + of_int (5 - priority m) * (3 / 10))"
    by (intro ext) (rule score_stored[OF assms(2)])
  have eq: "selectOrder st = sort_key (\<lambda>m. - score st m) (candidates st)"
    using assms(1) by (rule selectOrder_not_slow)
  then show "selectOrder st =
      sort_key (\<lambda>m. - (stored_rate st (name m) * (7 / 10) + of_int (5 - priority m) * (3 / 10)))
        (candidates st)"
    unfolding sc .
  fix i j
  assume h: "i < length (selectOrder st) \<and> j < length (selectOrder st) \<and>
            priority (selectOrder st ! i) = 1 \<and> priority (selectOrder st ! j) = 2 \<and>
            stored_rate st (name (selectOrder st ! i)) = stored_rate st (name (selectOrder st ! j))"
  have srt: "sorted (map (\<lambda>m. - score st m) (selectOrder st))"
    unfolding eq by (rule sorted_sort_key)
  from h have i: "i < length (selectOrder st)" and j: "j < length (selectOrder st)"
    by blast+
  from h assms(2) have "rate_or_default st (name (selectOrder st ! i)) =
      rate_or_default st (name (selectOrder st ! j))"
    by (simp add: rate_or_default_stored)
  with h have "score st (selectOrder st ! j) < score st (selectOrder st ! i)"
    by (intro score_priority_1_2) blast+
  with srt i j show "i < j"
    by (rule higher_score_first)
qed

theorem selectOrder_by_score_witness:
  "getNetworkSpeedCategory proven_state \<noteq> Slow \<and>
   (\<forall>n. successRate (metrics proven_state) n \<noteq> Some 0) \<and>
   map (\<lambda>m. (name m, priority m, stored_rate proven_state (name m))) (candidates proven_state) =
     [(''webrtc'', 1, 1 / 2), (''proxy'', 2, 1 / 2), (''transcode'', 3, 1), (''direct'', 4, 1 / 2)] \<and>
   sort_key (\<lambda>m. - (stored_rate proven_state (name m) * (7 / 10) + of_int (5 - priority m) * (3 / 10)))
     (candidates proven_state) = selectOrder proven_state \<and>
   map name (selectOrder proven_state) = [''webrtc'', ''transcode'', ''proxy'', ''direct''] \<and>
   priority (selectOrder proven_state ! 0) = 1 \<and> priority (selectOrder proven_state ! 2) = 2 \<and>
   stored_rate proven_state (name (selectOrder proven_state ! 0)) =
     stored_rate proven_state (name (selectOrder proven_state ! 2)) \<and>
   (0::nat) < 2"
proof -
  have ns: "getNetworkSpeedCategory proven_state \<noteq> Slow"
    by (simp add: speed_proven_state)
  have nz: "\<forall>n. successRate (metrics proven_state) n \<noteq> Some 0"
    by (simp add: rates_proven_state)
  note sel = selectOrder_by_score[OF ns nz]
  from sel have eq: "sort_key (\<lambda>m. - (stored_rate proven_state (name m) * (7 / 10) +
      of_int (5 - priority m) * (3 / 10))) (candidates proven_state) = selectOrder proven_state"
    by (simp only: conjunct1[OF sel])
  have c: "map (\<lambda>m. (name m, priority m, stored_rate proven_state (name m))) (candidates proven_state) =
     [(''webrtc'', 1, 1 / 2), (''proxy'', 2, 1 / 2), (''transcode'', 3, 1), (''direct'', 4, 1 / 2)]"
    by (simp add: candidates_proven_state stored_rate_def rates_proven_state method_defs)
  have names: "map name (selectOrder proven_state) = [''webrtc'', ''transcode'', ''proxy'', ''direct'']"
    by (simp add: selectOrder_proven_state method_defs)
  have p0: "priority (selectOrder proven_state ! 0) = 1"
    and p2: "priority (selectOrder proven_state ! 2) = 2"
    and r: "stored_rate proven_state (name (selectOrder proven_state ! 0)) =
     stored_rate proven_state (name (selectOrder proven_state ! 2))"
    by (simp_all add: selectOrder_proven_state stored_rate_def rates_proven_state method_defs)
  have len: "length (selectOrder proven_state) = 4"
    by (simp add: selectOrder_proven_state)
  from conjunct2[OF sel] p0 p2 r len have "(0::nat) < 2"
    by simp
  with ns nz c eq names p0 p2 r show ?thesis
    by (intro conjI)
qed

subsection \<open>What the availability check does guarantee\<close>

lemma requirements_loop_device:
  "requirements_loop dev rs \<Longrightarrow>
   (''webrtc_support'' \<in> set rs \<longrightarrow> truthy_cap dev ''webrtc_support'') \<and>
   (''websocket_support'' \<in> set rs \<longrightarrow> truthy_cap dev ''websocket_support'')"
  by (induction rs) (auto split: if_splits)

lemma set_optimizeMethodsByNetwork:
  "m \<in> set (optimizeMethodsByNetwork st ms) \<Longrightarrow>
   \<exists>m0 \<in> set ms. name m = name m0 \<and> requirements m = requirements m0"
  by (cases "networkInfo st") (auto simp: optimizeMethodsByNetwork_def Let_def set_js_sort)

lemma set_selectOrder:
  assumes "m \<in> set (selectOrder st)"
  shows "\<exists>m0 \<in> set (methods st). available m0 \<and> name m = name m0 \<and>
           requirements m = requirements m0"
proof -
  from assms have "m \<in> set (optimizeMethodsByNetwork st (availableMethods st))"
    by (simp add: selectOrder_def optimizeMethodsByHistory_def set_js_sort)
  from set_optimizeMethodsByNetwork[OF this] show ?thesis
    by (auto simp: availableMethods_def set_js_sort)
qed

text \<open>
  The two device capabilities are respected: after availability detection with a
  capability set \<open>dev\<close>, a method in the selection output that requires \<open>webrtc_support\<close>
  or \<open>websocket_support\<close> finds the capability true in \<open>dev\<close>.
\<close>

lemma selectOrder_respects_device_capabilities:
  assumes "m \<in> set (selectOrder (initializeCapabilityDetection dev net st))"
    and "r \<in> set (requirements m)"
    and "r = ''webrtc_support'' \<or> r = ''websocket_support''"
  shows "dev r = Some True"
proof -
  let ?st = "initializeCapabilityDetection dev net st"
  from set_selectOrder[OF assms(1)] obtain m0 where
    m0: "m0 \<in> set (methods ?st)" "available m0" "requirements m = requirements m0"
    by blast
  from m0(1) obtain m1 where
    m1: "m0 = m1\<lparr>available := requirements_loop (Some dev) (requirements m1)\<rparr>"
    by (auto simp: initializeCapabilityDetection_def detectMethodAvailability_def
        checkMethodRequirements_def)
  with m0(2) have "requirements_loop (Some dev) (requirements m0)"
    by simp
  from requirements_loop_device[OF this] assms(2,3) m0(3) show ?thesis
    by (auto simp: truthy_cap_def)
qed

text \<open>
  The selection output is as long as the list of available methods, so the selected
  method exists whenever an available method does.
\<close>

lemma length_selectOrder: "length (selectOrder st) = length (availableMethods st)"
  by (cases "networkInfo st")
    (simp_all add: selectOrder_def optimizeMethodsByHistory_def optimizeMethodsByNetwork_def
      Let_def length_js_sort)

lemma selectBestMethod_result:
  "fst (selectBestMethod st) =
     (if availableMethods st = [] then Inl (Error msg_no_method) else Inr (hd (selectOrder st)))"
proof (cases "availableMethods st = []")
  case True
  then show ?thesis by (simp add: selectBestMethod_def)
next
  case False
  with length_selectOrder[of st] have "selectOrder st \<noteq> []"
    by (metis length_0_conv)
  with False show ?thesis
    by (cases "selectOrder st") (simp_all add: selectBestMethod_def)
qed

section \<open>Properties of the execution with fallback\<close>

subsection \<open>One step of the attempt loop\<close>

declare attempt_loop.simps [simp del]

lemma attempt_loop_done:
  "\<not> attempt < retries m \<Longrightarrow> attempt_loop g p m attempt s = (Normal, s)"
  by (subst attempt_loop.simps) simp

lemma attempt_loop_success:
  "attempt < retries m \<Longrightarrow> race (timeout m) (p m attempt) = Inr result \<Longrightarrow>
   attempt_loop g p m attempt s =
     (Return result, s\<lparr>calls := calls s @ [(m, timeout m)],
        mgr := recordSuccess m (mgr s)\<rparr>)"
  by (subst attempt_loop.simps) (simp add: Let_def)

lemma attempt_loop_failure_unbound:
  "attempt < retries m \<Longrightarrow> race (timeout m) (p m attempt) = Inl error \<Longrightarrow>
   attempt_loop False p m attempt s =
     (Throw (ReferenceError ''attemptStartTime is not defined''),
      s\<lparr>calls := calls s @ [(m, timeout m)], lastError := Some error\<rparr>)"
  by (subst attempt_loop.simps) (simp add: Let_def)

lemma attempt_loop_failure_bound:
  "attempt < retries m \<Longrightarrow> race (timeout m) (p m attempt) = Inl error \<Longrightarrow>
   attempt_loop True p m attempt s =
     attempt_loop True p m (attempt + 1)
       (s\<lparr>calls := calls s @ [(m, timeout m)], lastError := Some error,
          mgr := recordFailure m error (mgr s)\<rparr>)"
  by (subst attempt_loop.simps) (simp add: Let_def)

lemma attempt_loop_cases:
  obtains (finished) "\<not> attempt < retries m" "attempt_loop g p m attempt s = (Normal, s)"
  | (success) result where "attempt < retries m" "race (timeout m) (p m attempt) = Inr result"
      "attempt_loop g p m attempt s =
         (Return result, s\<lparr>calls := calls s @ [(m, timeout m)], mgr := recordSuccess m (mgr s)\<rparr>)"
  | (unbound) error where "attempt < retries m" "race (timeout m) (p m attempt) = Inl error" "\<not> g"
      "attempt_loop g p m attempt s =
         (Throw (ReferenceError ''attemptStartTime is not defined''),
          s\<lparr>calls := calls s @ [(m, timeout m)], lastError := Some error\<rparr>)"
  | (retry) error where "attempt < retries m" "race (timeout m) (p m attempt) = Inl error" "g"
      "attempt_loop g p m attempt s =
         attempt_loop g p m (attempt + 1)
           (s\<lparr>calls := calls s @ [(m, timeout m)], lastError := Some error,
              mgr := recordFailure m error (mgr s)\<rparr>)"
proof (cases "attempt < retries m")
  case False
  show ?thesis
    by (rule finished[OF False]) (rule attempt_loop_done[OF False])
next
  case lt: True
  show ?thesis
  proof (cases "race (timeout m) (p m attempt)")
    case (Inr result)
    show ?thesis
      by (rule success[OF lt Inr]) (rule attempt_loop_success[where p=p and m=m and attempt=attempt, OF lt Inr])
  next
    case (Inl error)
    show ?thesis
    proof (cases g)
      case True
      show ?thesis
        using attempt_loop_failure_bound[where p=p and m=m and attempt=attempt and s=s, OF lt Inl] True
        by (intro retry[OF lt Inl]) simp_all
    next
      case False
      show ?thesis
        using attempt_loop_failure_unbound[where p=p and m=m and attempt=attempt and s=s, OF lt Inl] False
        by (intro unbound[OF lt Inl]) simp_all
    qed
  qed
qed

lemma attempt_loop_calls:
  "attempt_loop g p m attempt s = (c, s') \<Longrightarrow>
   \<exists>k \<le> retries m - attempt. calls s' = calls s @ replicate k (m, timeout m)"
proof (induction "retries m - attempt" arbitrary: attempt s)
  case 0
  then have "\<not> attempt < retries m" by simp
  with 0 show ?case by (auto simp: attempt_loop_done intro: exI[of _ 0])
next
  case (Suc n)
  show ?case
  proof (cases g p m attempt s rule: attempt_loop_cases)
    case finished
    with Suc.prems show ?thesis by (auto intro: exI[of _ 0])
  next
    case (success result)
    with Suc.prems Suc.hyps(2) show ?thesis by (auto intro!: exI[of _ 1])
  next
    case (unbound error)
    with Suc.prems Suc.hyps(2) show ?thesis by (auto intro!: exI[of _ 1])
  next
    case (retry error)
    let ?s1 = "s\<lparr>calls := calls s @ [(m, timeout m)], lastError := Some error,
              mgr := recordFailure m error (mgr s)\<rparr>"
    from Suc.hyps(2) have n: "n = retries m - (attempt + 1)" by simp
    from retry Suc.prems have "attempt_loop g p m (attempt + 1) ?s1 = (c, s')" by simp
    from Suc.hyps(1)[OF n this] obtain k where
      k: "k \<le> retries m - (attempt + 1)" "calls s' = calls ?s1 @ replicate k (m, timeout m)"
      by blast
    from k(1) retry(1) have "Suc k \<le> retries m - attempt" by simp
    moreover from k(2) have "calls s' = calls s @ replicate (Suc k) (m, timeout m)" by simp
    ultimately show ?thesis by blast
  qed
qed

lemma attempt_loop_methods:
  "attempt_loop g p m attempt s = (c, s') \<Longrightarrow> methods (mgr s') = methods (mgr s)"
proof (induction "retries m - attempt" arbitrary: attempt s)
  case 0
  then have "\<not> attempt < retries m" by simp
  with 0 show ?case by (auto simp: attempt_loop_done)
next
  case (Suc n)
  show ?case
  proof (cases g p m attempt s rule: attempt_loop_cases)
    case finished
    with Suc.prems show ?thesis by auto
  next
    case (success result)
    with Suc.prems show ?thesis by (auto simp: methods_recordSuccess)
  next
    case (unbound error)
    with Suc.prems show ?thesis by auto
  next
    case (retry error)
    let ?s1 = "s\<lparr>calls := calls s @ [(m, timeout m)], lastError := Some error,
              mgr := recordFailure m error (mgr s)\<rparr>"
    from Suc.hyps(2) have n: "n = retries m - (attempt + 1)" by simp
    from retry Suc.prems have "attempt_loop g p m (attempt + 1) ?s1 = (c, s')" by simp
    from Suc.hyps(1)[OF n this] show ?thesis by (simp add: methods_recordFailure)
  qed
qed

lemma attempt_loop_cong:
  assumes "\<And>a. race (timeout m) (p m a) = race (timeout m) (p' m a)"
  shows "attempt_loop g p m attempt s = attempt_loop g p' m attempt s"
proof (induction "retries m - attempt" arbitrary: attempt s)
  case 0
  then have "\<not> attempt < retries m" by simp
  then show ?case by (simp add: attempt_loop_done)
next
  case (Suc n)
  from Suc.hyps(2) have n: "n = retries m - (attempt + 1)" by simp
  show ?case
  proof (cases g p m attempt s rule: attempt_loop_cases)
    case finished
    then show ?thesis by (simp add: attempt_loop_done)
  next
    case (success result)
    then show ?thesis using assms[of attempt] by (simp add: attempt_loop_success)
  next
    case (unbound error)
    then show ?thesis using assms[of attempt] by (simp add: attempt_loop_failure_unbound)
  next
    case (retry error)
    then show ?thesis
      using assms[of attempt] Suc.hyps(1)[OF n] by (simp add: attempt_loop_failure_bound)
  qed
qed

lemma method_loop_cong:
  assumes "\<And>m a. race (timeout m) (p m a) = race (timeout m) (p' m a)"
  shows "method_loop g p ms s = method_loop g p' ms s"
proof (induction ms arbitrary: s)
  case Nil
  show ?case by simp
next
  case (Cons m ms)
  have "attempt_loop g p m 0 s = attempt_loop g p' m 0 s"
    by (rule attempt_loop_cong) (rule assms)
  with Cons show ?case by (simp split: prod.splits completion.splits)
qed

lemma executeWithFallback_cong:
  assumes "\<And>m a. race (timeout m) (p m a) = race (timeout m) (p' m a)"
  shows "executeWithFallback g p st = executeWithFallback g p' st"
  by (simp add: executeWithFallback_def method_loop_cong[OF assms]
      cong: prod.case_cong sum.case_cong)


lemma attempt_loop_all_fail:
  assumes "attempts_fail p m"
  shows "\<exists>s'. attempt_loop True p m attempt s = (Normal, s') \<and>
           calls s' = calls s @ replicate (retries m - attempt) (m, timeout m) \<and>
           lastError s' =
             (if attempt < retries m then Some (attempt_error p m (retries m - 1)) else lastError s) \<and>
           mgr s' =
             fold (\<lambda>a. recordFailure m (attempt_error p m a)) [attempt..<retries m] (mgr s)"
proof (induction "retries m - attempt" arbitrary: attempt s)
  case 0
  then have "\<not> attempt < retries m" by simp
  with 0 show ?case by (simp add: attempt_loop_done)
next
  case (Suc n)
  then have lt: "attempt < retries m" and n: "n = retries m - (attempt + 1)" by simp_all
  from assms lt have "isl (race (timeout m) (p m attempt))"
    by (simp add: attempts_fail_def list_all_iff)
  then obtain e where e: "race (timeout m) (p m attempt) = Inl e"
    by (cases "race (timeout m) (p m attempt)") simp_all
  then have ae: "attempt_error p m attempt = e"
    by (simp add: attempt_error_def)
  let ?s1 = "s\<lparr>calls := calls s @ [(m, timeout m)], lastError := Some e,
              mgr := recordFailure m e (mgr s)\<rparr>"
  from Suc.hyps(1)[OF n, of ?s1] obtain s' where
    s': "attempt_loop True p m (attempt + 1) ?s1 = (Normal, s')"
      "calls s' = calls ?s1 @ replicate (retries m - (attempt + 1)) (m, timeout m)"
      "lastError s' = (if attempt + 1 < retries m then Some (attempt_error p m (retries m - 1))
                       else lastError ?s1)"
      "mgr s' = fold (\<lambda>a. recordFailure m (attempt_error p m a)) [attempt + 1..<retries m] (mgr ?s1)"
    by blast
  have "attempt_loop True p m attempt s = (Normal, s')"
    using attempt_loop_failure_bound[where p=p and m=m and attempt=attempt and s=s, OF lt e] s'(1)
    by simp
  moreover from lt have "replicate (retries m - attempt) (m, timeout m) =
      (m, timeout m) # replicate (retries m - (attempt + 1)) (m, timeout m)"
    by (cases "retries m - attempt") simp_all
  with s'(2) have "calls s' = calls s @ replicate (retries m - attempt) (m, timeout m)"
    by simp
  moreover have "lastError s' = Some (attempt_error p m (retries m - 1))"
  proof (cases "attempt + 1 < retries m")
    case True
    with s'(3) show ?thesis by simp
  next
    case False
    with lt have "retries m - 1 = attempt" by simp
    with False s'(3) ae show ?thesis by simp
  qed
  moreover from lt have "[attempt..<retries m] = attempt # [attempt + 1..<retries m]"
    by (simp add: upt_conv_Cons)
  with s'(4) ae have "mgr s' =
      fold (\<lambda>a. recordFailure m (attempt_error p m a)) [attempt..<retries m] (mgr s)"
    by simp
  ultimately show ?case using lt by simp
qed

lemma method_loop_all_fail:
  assumes "list_all (attempts_fail p) ms"
  shows "\<exists>s'. method_loop True p ms s = (Normal, s') \<and>
           calls s' = calls s @ planned_calls ms \<and>
           lastError s' = last_failure p ms (lastError s)"
  using assms
proof (induction ms arbitrary: s)
  case Nil
  show ?case by (simp add: planned_calls_def)
next
  case (Cons m ms)
  then have m: "attempts_fail p m" and ms: "list_all (attempts_fail p) ms" by simp_all
  from attempt_loop_all_fail[OF m, of 0 s] obtain s1 where
    s1: "attempt_loop True p m 0 s = (Normal, s1)"
      "calls s1 = calls s @ replicate (retries m) (m, timeout m)"
      "lastError s1 = (if 0 < retries m then Some (attempt_error p m (retries m - 1)) else lastError s)"
    by auto
  from Cons.IH[OF ms, of s1] obtain s' where
    s': "method_loop True p ms s1 = (Normal, s')"
      "calls s' = calls s1 @ planned_calls ms"
      "lastError s' = last_failure p ms (lastError s1)"
    by blast
  from s1 s' show ?case by (simp add: planned_calls_def)
qed

lemma filter_fst_replicate:
  "filter (\<lambda>x. fst x = m') (replicate k (m, t)) = (if m' = m then replicate k (m, t) else [])"
  by (induction k) auto

lemma method_loop_calls:
  "method_loop g p ms s = (c, s') \<Longrightarrow>
   \<exists>new. calls s' = calls s @ new \<and>
     (\<forall>x \<in> set new. fst x \<in> set ms \<and> snd x = timeout (fst x)) \<and>
     (distinct ms \<longrightarrow> (\<forall>m. length (filter (\<lambda>x. fst x = m) new) \<le> retries m))"
proof (induction ms arbitrary: s)
  case Nil
  then show ?case by simp
next
  case (Cons m ms)
  obtain c1 s1 where a: "attempt_loop g p m 0 s = (c1, s1)"
    by (cases "attempt_loop g p m 0 s")
  from attempt_loop_calls[OF a] obtain k where
    k: "k \<le> retries m" "calls s1 = calls s @ replicate k (m, timeout m)"
    by auto
  show ?case
  proof (cases "c1 = Normal")
    case False
    with Cons.prems a have "s' = s1"
      by (cases c1) simp_all
    with k show ?thesis
      by (intro exI[of _ "replicate k (m, timeout m)"]) (auto simp: filter_fst_replicate)
  next
    case True
    with Cons.prems a have "method_loop g p ms s1 = (c, s')" by simp
    from Cons.IH[OF this] obtain new where
      new: "calls s' = calls s1 @ new"
        "\<forall>x \<in> set new. fst x \<in> set ms \<and> snd x = timeout (fst x)"
        "distinct ms \<longrightarrow> (\<forall>m. length (filter (\<lambda>x. fst x = m) new) \<le> retries m)"
      by blast
    let ?new = "replicate k (m, timeout m) @ new"
    have 1: "calls s' = calls s @ ?new"
      using new(1) k(2) by simp
    have 2: "\<forall>x \<in> set ?new. fst x \<in> set (m # ms) \<and> snd x = timeout (fst x)"
      using new(2) by auto
    have 3: "distinct (m # ms) \<longrightarrow> (\<forall>m'. length (filter (\<lambda>x. fst x = m') ?new) \<le> retries m')"
    proof (intro impI allI)
      fix m'
      assume d: "distinct (m # ms)"
      show "length (filter (\<lambda>x. fst x = m') ?new) \<le> retries m'"
      proof (cases "m' = m")
        case True
        with d new(2) have "filter (\<lambda>x. fst x = m') new = []"
          by (auto simp: filter_empty_conv)
        with True k(1) show ?thesis by (simp add: filter_fst_replicate)
      next
        case False
        with d new(3) show ?thesis by (simp add: filter_fst_replicate)
      qed
    qed
    from 1 2 3 show ?thesis by blast
  qed
qed

lemma method_loop_methods:
  "method_loop g p ms s = (c, s') \<Longrightarrow> methods (mgr s') = methods (mgr s)"
proof (induction ms arbitrary: s)
  case Nil
  then show ?case by simp
next
  case (Cons m ms)
  obtain c1 s1 where a: "attempt_loop g p m 0 s = (c1, s1)"
    by (cases "attempt_loop g p m 0 s")
  from attempt_loop_methods[OF a] have m1: "methods (mgr s1) = methods (mgr s)" .
  show ?case
  proof (cases "c1 = Normal")
    case False
    with Cons.prems a have "s' = s1"
      by (cases c1) simp_all
    with m1 show ?thesis by simp
  next
    case True
    with Cons.prems a have "method_loop g p ms s1 = (c, s')" by simp
    from Cons.IH[OF this] m1 show ?thesis by simp
  qed
qed

subsection \<open>The plan and the calls of a whole execution\<close>

lemma selectBestMethod_fields:
  "methods (snd (selectBestMethod st)) = methods st"
  "attemptHistory (snd (selectBestMethod st)) = attemptHistory st"
  "metrics (snd (selectBestMethod st)) = metrics st"
  by (simp_all add: selectBestMethod_def split: list.splits)

lemma set_methodsToTry: "set (methodsToTry selectedMethod st) \<subseteq> set (methods st)"
  by (auto simp: methodsToTry_def set_js_sort)

lemma distinct_methodsToTry:
  "distinct (methods st) \<Longrightarrow> distinct (methodsToTry selectedMethod st)"
  by (simp add: methodsToTry_def distinct_js_sort)

lemma executeWithFallback_calls:
  "(\<forall>x \<in> set (calls (snd (executeWithFallback g p st))).
      fst x \<in> set (methods st) \<and> snd x = timeout (fst x)) \<and>
   (distinct (methods st) \<longrightarrow>
      (\<forall>m. length (filter (\<lambda>x. fst x = m) (calls (snd (executeWithFallback g p st))))
         \<le> retries m)) \<and>
   methods (mgr (snd (executeWithFallback g p st))) = methods st"
proof (cases "selectBestMethod st")
  case (Pair r st1)
  from selectBestMethod_fields(1)[of st] Pair have m1: "methods st1 = methods st" by simp
  show ?thesis
  proof (cases r)
    case (Inl e)
    with Pair m1 show ?thesis
      by (simp add: executeWithFallback_def start_state_def)
  next
    case (Inr sel)
    obtain c s' where ml: "method_loop g p (methodsToTry sel st1) (start_state st1) = (c, s')"
      by (cases "method_loop g p (methodsToTry sel st1) (start_state st1)")
    from Pair Inr ml have snd_eq: "snd (executeWithFallback g p st) = s'"
      by (cases c) (simp_all add: executeWithFallback_def)
    from method_loop_calls[OF ml] obtain new where
      new: "calls s' = calls (start_state st1) @ new"
        "\<forall>x \<in> set new. fst x \<in> set (methodsToTry sel st1) \<and> snd x = timeout (fst x)"
        "distinct (methodsToTry sel st1) \<longrightarrow>
           (\<forall>m. length (filter (\<lambda>x. fst x = m) new) \<le> retries m)"
      by blast
    from new(1) have c: "calls s' = new" by (simp add: start_state_def)
    from new(2) set_methodsToTry[of sel st1] m1
    have 1: "\<forall>x \<in> set new. fst x \<in> set (methods st) \<and> snd x = timeout (fst x)"
      by auto
    from new(3) distinct_methodsToTry[of st1 sel] m1
    have 2: "distinct (methods st) \<longrightarrow>
       (\<forall>m. length (filter (\<lambda>x. fst x = m) new) \<le> retries m)"
      by simp
    from method_loop_methods[OF ml] m1 have 3: "methods (mgr s') = methods st"
      by (simp add: start_state_def)
    from 1 2 3 show ?thesis
      unfolding snd_eq c by blast
  qed
qed

lemma distinct_constructor_methods: "distinct constructor_methods"
  by (simp add: constructor_methods_def)

lemma catalog_methods_distinct: "catalog_methods st \<Longrightarrow> distinct (methods st)"
  using distinct_constructor_methods distinct_map[of "\<lambda>m. m\<lparr>available := False\<rparr>" "methods st"]
  by (simp add: catalog_methods_def)

lemma catalog_methods_member:
  "catalog_methods st \<Longrightarrow> m \<in> set (methods st) \<Longrightarrow>
   m\<lparr>available := False\<rparr> \<in> set constructor_methods"
  unfolding catalog_methods_def by (metis image_eqI set_map)

lemma catalog_methods_detected:
  "catalog_methods (initializeCapabilityDetection dev net constructor)"
  by (simp add: catalog_methods_def methods_detected) (simp add: constructor_methods_def method_defs)

lemma executeWithFallback_all_fail:
  assumes "selectBestMethod st = (Inr selectedMethod, st1)"
    and "list_all (attempts_fail p) (methodsToTry selectedMethod st1)"
  shows "fst (executeWithFallback True p st) =
           Inl (Error (msg_all_failed @
             last_message (last_failure p (methodsToTry selectedMethod st1) None)))"
    and "calls (snd (executeWithFallback True p st)) =
           planned_calls (methodsToTry selectedMethod st1)"
proof -
  from method_loop_all_fail[OF assms(2), of "start_state st1"] obtain s' where
    "method_loop True p (methodsToTry selectedMethod st1) (start_state st1) = (Normal, s')"
    "calls s' = calls (start_state st1) @ planned_calls (methodsToTry selectedMethod st1)"
    "lastError s' = last_failure p (methodsToTry selectedMethod st1) (lastError (start_state st1))"
    by blast
  with assms(1) show
    "fst (executeWithFallback True p st) =
           Inl (Error (msg_all_failed @
             last_message (last_failure p (methodsToTry selectedMethod st1) None)))"
    "calls (snd (executeWithFallback True p st)) =
           planned_calls (methodsToTry selectedMethod st1)"
    by (simp_all add: executeWithFallback_def start_state_def)
qed

lemma race_settles_late: "settles_late m outcome \<Longrightarrow> race (timeout m) outcome = Inl msg_timeout"
  by (cases outcome) (simp_all add: settles_late_def race_def)

subsection \<open>A failing first method followed by a succeeding second one\<close>

lemma first_failure_escapes:
  assumes "selectBestMethod st = (Inr selectedMethod, st1)"
    and "methodsToTry selectedMethod st1 = m # ms"
    and "0 < retries m"
    and "race (timeout m) (p m 0) = Inl e"
  shows "executeWithFallback False p st =
           (Inl (ReferenceError ''attemptStartTime is not defined''),
            \<lparr>mgr = st1, lastError = Some e, calls = [(m, timeout m)]\<rparr>)"
  using assms attempt_loop_failure_unbound[where p=p and m=m and attempt=0
      and s="start_state st1" and error=e]
  by (simp add: executeWithFallback_def start_state_def)

lemma fallback_to_second_method:
  assumes "selectBestMethod st = (Inr selectedMethod, st1)"
    and "methodsToTry selectedMethod st1 = m1 # m2 # ms"
    and "attempts_fail p m1"
    and "0 < retries m2"
    and "race (timeout m2) (p m2 0) = Inr result"
  shows "executeWithFallback True p st =
           (Inr result,
            \<lparr>mgr = recordSuccess m2
                     (fold (\<lambda>a. recordFailure m1 (attempt_error p m1 a)) [0..<retries m1] st1),
             lastError = (if 0 < retries m1 then Some (attempt_error p m1 (retries m1 - 1)) else None),
             calls = replicate (retries m1) (m1, timeout m1) @ [(m2, timeout m2)]\<rparr>)"
proof -
  from attempt_loop_all_fail[OF assms(3), of 0 "start_state st1"] obtain s1 where
    s1: "attempt_loop True p m1 0 (start_state st1) = (Normal, s1)"
      "calls s1 = replicate (retries m1) (m1, timeout m1)"
      "lastError s1 = (if 0 < retries m1 then Some (attempt_error p m1 (retries m1 - 1)) else None)"
      "mgr s1 = fold (\<lambda>a. recordFailure m1 (attempt_error p m1 a)) [0..<retries m1] st1"
    by (auto simp: start_state_def)
  have "attempt_loop True p m2 0 s1 =
      (Return result, s1\<lparr>calls := calls s1 @ [(m2, timeout m2)], mgr := recordSuccess m2 (mgr s1)\<rparr>)"
    by (rule attempt_loop_success[where p=p and m=m2 and attempt=0, OF assms(4) assms(5)])
  with s1 assms(1,2) show ?thesis
    by (cases s1) (simp add: executeWithFallback_def)
qed

subsection \<open>Evaluation on the concrete managers\<close>

lemma selectBestMethod_slow_state:
  "selectBestMethod slow_state =
     (Inr (optimizedMethod Slow webrtc),
      slow_state\<lparr>currentMethod := Some (optimizedMethod Slow webrtc)\<rparr>)"
  by (simp add: selectBestMethod_def availableMethods_all[OF methods_slow_state]
      selectOrder_slow_state)

lemma selectBestMethod_fast_state:
  "selectBestMethod fast_state =
     (Inr (optimizedMethod Fast webrtc),
      fast_state\<lparr>currentMethod := Some (optimizedMethod Fast webrtc)\<rparr>)"
  by (simp add: selectBestMethod_def availableMethods_all[OF methods_fast_state]
      selectOrder_fast_state)

lemma methodsToTry_all:
  "name selectedMethod = ''webrtc'' \<Longrightarrow> methods st = [webrtc, proxy, transcode, direct] \<Longrightarrow>
   methodsToTry selectedMethod st = [webrtc, proxy, transcode, direct]"
  by (simp add: methodsToTry_def js_sort_def selected_first_def method_defs)

lemma methodsToTry_slow_state:
  "methodsToTry (optimizedMethod Slow webrtc)
     (slow_state\<lparr>currentMethod := Some (optimizedMethod Slow webrtc)\<rparr>) =
   [webrtc, proxy, transcode, direct]"
  by (rule methodsToTry_all) (simp_all add: methods_slow_state, simp add: webrtc_def)

lemma methodsToTry_fast_state:
  "methodsToTry (optimizedMethod Fast webrtc)
     (fast_state\<lparr>currentMethod := Some (optimizedMethod Fast webrtc)\<rparr>) =
   [webrtc, proxy, transcode, direct]"
  by (rule methodsToTry_all) (simp_all add: methods_fast_state, simp add: webrtc_def)

lemma history_slow_state: "attemptHistory slow_state = []"
  by (simp add: slow_state_def constructor_def)

lemma history_fast_state: "attemptHistory fast_state = []"
  by (simp add: fast_state_def constructor_def)

lemma connectionTime_slow_state: "connectionTime (metrics slow_state) = []"
  by (simp add: slow_state_def constructor_def empty_metrics_def)

lemma webrtc_rejected:
  "race (timeout webrtc) (play_webrtc_rejects webrtc a) = Inl ''connection failed''"
  by (simp add: race_def play_webrtc_rejects_def webrtc_def)

lemma webrtc_rejected_always: "attempts_fail play_webrtc_rejects webrtc"
  by (simp add: attempts_fail_def webrtc_rejected list_all_iff)

lemma proxy_resolves: "race (timeout proxy) (play_webrtc_rejects proxy 0) = Inr 7"
  by (simp add: race_def play_webrtc_rejects_def proxy_def)

text \<open>
  When the page happens to define a global \<open>attemptStartTime\<close>, the fallback runs to its
  end: \<open>webrtc\<close> fails its two attempts, \<open>proxy\<close> succeeds, the result is the one of
  \<open>proxy\<close>, the history holds two failures of \<open>webrtc\<close> and the connection times hold
  one entry for \<open>proxy\<close>.
\<close>

lemma fallback_scenario_with_global:
  "fst (executeWithFallback True play_webrtc_rejects slow_state) = Inr 7 \<and>
   map (\<lambda>a. (ar_method a, ar_success a))
     (attemptHistory (mgr (snd (executeWithFallback True play_webrtc_rejects slow_state)))) =
     [(''webrtc'', False), (''webrtc'', False)] \<and>
   map cr_method
     (connectionTime (metrics (mgr (snd (executeWithFallback True play_webrtc_rejects slow_state))))) =
     [''proxy'']"
proof -
  have r1: "retries webrtc = 2" and r2: "0 < retries proxy"
    by (simp_all add: method_defs)
  have 2: "[0..<2] = [0, Suc 0]"
    by (simp add: numeral_2_eq_2)
  note run = fallback_to_second_method[where p=play_webrtc_rejects,
      OF selectBestMethod_slow_state methodsToTry_slow_state
      webrtc_rejected_always r2 proxy_resolves]
  show ?thesis
    unfolding run
    by (simp add: r1 2 attemptHistory_recordSuccess attemptHistory_recordFailure
        connectionTime_recordSuccess connectionTime_recordFailure history_slow_state
        connectionTime_slow_state push_limited_def)
      (simp add: method_defs)
qed

text \<open>
  Claim C2 fails on the code. All four methods are available, the first attempt of
  \<open>webrtc\<close> is rejected, and the page defines no global \<open>attemptStartTime\<close>. The failure
  is not recovered: the call ends with a ReferenceError after this one attempt, without
  a retry, without a fallback, and without a failure record.
\<close>

theorem attempt_failure_escalates:
  "fst (executeWithFallback False play_webrtc_rejects fast_state) =
     Inl (ReferenceError ''attemptStartTime is not defined'') \<and>
   calls (snd (executeWithFallback False play_webrtc_rejects fast_state)) = [(webrtc, 10000)] \<and>
   attemptHistory (mgr (snd (executeWithFallback False play_webrtc_rejects fast_state))) = []"
proof -
  have r: "0 < retries webrtc"
    by (simp add: webrtc_def)
  note run = first_failure_escapes[where p=play_webrtc_rejects,
      OF selectBestMethod_fast_state methodsToTry_fast_state r webrtc_rejected[of 0]]
  show ?thesis
    unfolding run by (simp add: history_fast_state) (simp add: webrtc_def)
qed

text \<open>
  Claim C6 fails on the code in its scenario. \<open>webrtc\<close> fails every attempt and \<open>proxy\<close>
  would succeed on its first attempt, with no global \<open>attemptStartTime\<close> on the page:
  the call does not return the result of \<open>proxy\<close> but ends with a ReferenceError after
  the first attempt of \<open>webrtc\<close>; no failure is recorded for \<open>webrtc\<close> and no success for
  \<open>proxy\<close>, which is never called.
\<close>

theorem fallback_scenario_aborts:
  "attempts_fail play_webrtc_rejects webrtc \<and>
   race (timeout proxy) (play_webrtc_rejects proxy 0) = Inr 7 \<and>
   fst (executeWithFallback False play_webrtc_rejects slow_state) =
     Inl (ReferenceError ''attemptStartTime is not defined'') \<and>
   map fst (calls (snd (executeWithFallback False play_webrtc_rejects slow_state))) = [webrtc] \<and>
   attemptHistory (mgr (snd (executeWithFallback False play_webrtc_rejects slow_state))) = [] \<and>
   connectionTime (metrics (mgr (snd (executeWithFallback False play_webrtc_rejects slow_state)))) = []"
proof -
  have r: "0 < retries webrtc"
    by (simp add: webrtc_def)
  note run = first_failure_escapes[where p=play_webrtc_rejects,
      OF selectBestMethod_slow_state methodsToTry_slow_state r webrtc_rejected[of 0]]
  show ?thesis
    unfolding run
    by (simp add: history_slow_state connectionTime_slow_state webrtc_rejected_always
        proxy_resolves)
qed

subsection \<open>All methods fail\<close>

lemma rejects_all_fail: "list_all (attempts_fail (play_rejects msgs)) [webrtc, proxy, transcode, direct]"
  by (simp add: attempts_fail_def race_def play_rejects_def list_all_iff method_defs)

lemma rejects_last_failure:
  "last_failure (play_rejects msgs) [webrtc, proxy, transcode, direct] None = Some (msgs ''direct'')"
  by (simp add: attempt_error_def race_def play_rejects_def method_defs)

lemma rejects_fast_state:
  "fst (executeWithFallback True (play_rejects msgs) fast_state) =
     Inl (Error (msg_all_failed @ last_message (Some (msgs ''direct''))))"
  "calls (snd (executeWithFallback True (play_rejects msgs) fast_state)) =
     planned_calls [webrtc, proxy, transcode, direct]"
  using executeWithFallback_all_fail[where p="play_rejects msgs",
      OF selectBestMethod_fast_state, unfolded methodsToTry_fast_state, OF rejects_all_fail]
  by (simp_all only: rejects_last_failure)

lemma planned_calls_all:
  "map (\<lambda>x. name (fst x)) (planned_calls [webrtc, proxy, transcode, direct]) =
     [''webrtc'', ''webrtc'', ''proxy'', ''proxy'', ''proxy'', ''transcode'', ''transcode'',
      ''direct'']"
  by (simp add: planned_calls_def method_defs numeral_2_eq_2 numeral_3_eq_3)

text \<open>
  Claim C7, as stated, fails. Two executions in which every attempt of every method is
  rejected, and which differ in the error of \<open>webrtc\<close>, end with the same error value: one
  \<open>Error\<close> whose message names the last failure (of \<open>direct\<close>) only. The error has no
  entry per method, no attempt counts and no other method's last error. (The handler is
  given a global \<open>attemptStartTime\<close> here, so that all eight attempts are made.)
\<close>

theorem aggregate_failure_counterexample:
  "fst (executeWithFallback True (play_rejects msgs_a) fast_state) =
     Inl (Error ''all playback methods failed: error in direct'') \<and>
   fst (executeWithFallback True (play_rejects msgs_b) fast_state) =
     Inl (Error ''all playback methods failed: error in direct'') \<and>
   attempt_error (play_rejects msgs_a) webrtc 1 = ''error in webrtc'' \<and>
   attempt_error (play_rejects msgs_b) webrtc 1 = ''handshake refused'' \<and>
   map (\<lambda>x. name (fst x)) (calls (snd (executeWithFallback True (play_rejects msgs_a) fast_state))) =
     [''webrtc'', ''webrtc'', ''proxy'', ''proxy'', ''proxy'', ''transcode'', ''transcode'',
      ''direct'']"
proof -
  have "attempt_error (play_rejects msgs_a) webrtc 1 = ''error in webrtc''"
    and "attempt_error (play_rejects msgs_b) webrtc 1 = ''handshake refused''"
    by (simp_all add: attempt_error_def race_def play_rejects_def msgs_a_def msgs_b_def webrtc_def)
  moreover have "msg_all_failed @ last_message (Some (msgs_a ''direct'')) =
      ''all playback methods failed: error in direct''"
    and "msg_all_failed @ last_message (Some (msgs_b ''direct'')) =
      ''all playback methods failed: error in direct''"
    by (simp_all add: msg_all_failed_def last_message_def msgs_a_def msgs_b_def)
  ultimately show ?thesis
    by (simp only: rejects_fast_state planned_calls_all simp_thms)
qed

text \<open>
  Claim C7, amended. If every attempt of every method of the plan fails, and the failure
  handler runs to its end (the page defines a global \<open>attemptStartTime\<close>), then every
  method of the plan is attempted exactly \<open>retries\<close> times, in plan order, and the call
  fails with one \<open>Error\<close> whose message is a fixed prefix followed by the message of the
  last failed attempt (or by a fixed text when that message is empty).
\<close>

theorem all_failed_error_carries_last_message:
  assumes "selectBestMethod st = (Inr selectedMethod, st1)"
    and "list_all (attempts_fail p) (methodsToTry selectedMethod st1)"
  shows "fst (executeWithFallback True p st) =
           Inl (Error (msg_all_failed @
             last_message (last_failure p (methodsToTry selectedMethod st1) None))) \<and>
         calls (snd (executeWithFallback True p st)) =
           planned_calls (methodsToTry selectedMethod st1)"
  using executeWithFallback_all_fail[OF assms] by (intro conjI)

theorem all_failed_error_carries_last_message_witness:
  "selectBestMethod fast_state =
     (Inr (optimizedMethod Fast webrtc),
      fast_state\<lparr>currentMethod := Some (optimizedMethod Fast webrtc)\<rparr>) \<and>
   list_all (attempts_fail (play_rejects msgs_a))
     (methodsToTry (optimizedMethod Fast webrtc)
        (fast_state\<lparr>currentMethod := Some (optimizedMethod Fast webrtc)\<rparr>)) \<and>
   fst (executeWithFallback True (play_rejects msgs_a) fast_state) =
     Inl (Error ''all playback methods failed: error in direct'') \<and>
   calls (snd (executeWithFallback True (play_rejects msgs_a) fast_state)) =
     [(webrtc, 10000), (webrtc, 10000), (proxy, 15000), (proxy, 15000), (proxy, 15000),
      (transcode, 30000), (transcode, 30000), (direct, 20000)]"
proof -
  have h2: "list_all (attempts_fail (play_rejects msgs_a))
     (methodsToTry (optimizedMethod Fast webrtc)
        (fast_state\<lparr>currentMethod := Some (optimizedMethod Fast webrtc)\<rparr>))"
    unfolding methodsToTry_fast_state by (rule rejects_all_fail)
  have msg: "msg_all_failed @ last_message (Some (msgs_a ''direct'')) =
      ''all playback methods failed: error in direct''"
    by (simp add: msg_all_failed_def last_message_def msgs_a_def)
  have pc: "planned_calls [webrtc, proxy, transcode, direct] =
     [(webrtc, 10000), (webrtc, 10000), (proxy, 15000), (proxy, 15000), (proxy, 15000),
      (transcode, 30000), (transcode, 30000), (direct, 20000)]"
    by (simp add: planned_calls_def method_defs numeral_2_eq_2 numeral_3_eq_3)
  from all_failed_error_carries_last_message[OF selectBestMethod_fast_state h2]
  have "fst (executeWithFallback True (play_rejects msgs_a) fast_state) =
     Inl (Error ''all playback methods failed: error in direct'')"
    and "calls (snd (executeWithFallback True (play_rejects msgs_a) fast_state)) =
     [(webrtc, 10000), (webrtc, 10000), (proxy, 15000), (proxy, 15000), (proxy, 15000),
      (transcode, 30000), (transcode, 30000), (direct, 20000)]"
    by (simp_all only: methodsToTry_fast_state rejects_last_failure msg pc)
  with selectBestMethod_fast_state h2 show ?thesis
    by (intro conjI)
qed

subsection \<open>A result that arrives after the timeout\<close>

lemma late_outcomes_race:
  assumes "\<forall>m a. p' m a = p m a \<or> (settles_late m (p m a) \<and> settles_late m (p' m a))"
  shows "race (timeout m) (p m a) = race (timeout m) (p' m a)"
proof -
  from assms have "p' m a = p m a \<or> (settles_late m (p m a) \<and> settles_late m (p' m a))"
    by blast
  then show ?thesis
    by (auto simp: race_settles_late)
qed

lemma webrtc_late_timeout:
  "race (timeout webrtc) (play_webrtc_late webrtc a) = Inl msg_timeout"
  by (simp add: race_def play_webrtc_late_def webrtc_def)

lemma webrtc_late_always: "attempts_fail play_webrtc_late webrtc"
  by (simp add: attempts_fail_def webrtc_late_timeout list_all_iff)

lemma proxy_resolves_late: "race (timeout proxy) (play_webrtc_late proxy 0) = Inr 7"
  by (simp add: race_def play_webrtc_late_def proxy_def)

lemma webrtc_late_run:
  "fst (executeWithFallback True play_webrtc_late slow_state) = Inr 7"
  "calls (snd (executeWithFallback True play_webrtc_late slow_state)) =
     [(webrtc, 10000), (webrtc, 10000), (proxy, 15000)]"
  "map (\<lambda>a. (ar_method a, ar_success a, ar_error a))
     (attemptHistory (mgr (snd (executeWithFallback True play_webrtc_late slow_state)))) =
     [(''webrtc'', False, msg_timeout), (''webrtc'', False, msg_timeout)]"
  "methods (mgr (snd (executeWithFallback True play_webrtc_late slow_state))) =
     [webrtc, proxy, transcode, direct]"
proof -
  have r1: "retries webrtc = 2" and r2: "0 < retries proxy"
    by (simp_all add: method_defs)
  have 2: "[0..<2] = [0, Suc 0]"
    by (simp add: numeral_2_eq_2)
  have ae: "attempt_error play_webrtc_late webrtc a = msg_timeout" for a
    by (simp add: attempt_error_def webrtc_late_timeout)
  note run = fallback_to_second_method[where p=play_webrtc_late,
      OF selectBestMethod_slow_state methodsToTry_slow_state
      webrtc_late_always r2 proxy_resolves_late]
  show "fst (executeWithFallback True play_webrtc_late slow_state) = Inr 7"
    unfolding run by simp
  show "calls (snd (executeWithFallback True play_webrtc_late slow_state)) =
     [(webrtc, 10000), (webrtc, 10000), (proxy, 15000)]"
    unfolding run by (simp add: r1 numeral_2_eq_2) (simp add: method_defs)
  show "map (\<lambda>a. (ar_method a, ar_success a, ar_error a))
     (attemptHistory (mgr (snd (executeWithFallback True play_webrtc_late slow_state)))) =
     [(''webrtc'', False, msg_timeout), (''webrtc'', False, msg_timeout)]"
    unfolding run
    by (simp add: r1 2 ae attemptHistory_recordSuccess attemptHistory_recordFailure
        history_slow_state push_limited_def)
      (simp add: webrtc_def)
  show "methods (mgr (snd (executeWithFallback True play_webrtc_late slow_state))) =
     [webrtc, proxy, transcode, direct]"
    unfolding run
    by (simp add: r1 2 methods_recordSuccess methods_recordFailure methods_slow_state)
qed

text \<open>
  Claim C8. An operation that does not settle before the timer of its attempt fires
  counts as a timeout of that attempt: the attempt is handled as a failure with the
  timeout error (recorded, then retried, when the handler runs to its end), never as a
  success. What the operation delivers afterwards has no influence: two play functions
  that differ only in such late outcomes give the same result of
  \<open>executeWithFallback\<close> and the same final state, failure records included.
\<close>

theorem late_result_is_discarded:
  "((\<forall>m a. p' m a = p m a \<or> (settles_late m (p m a) \<and> settles_late m (p' m a))) \<longrightarrow>
      executeWithFallback g p st = executeWithFallback g p' st) \<and>
   (attempt < retries m \<and> settles_late m (p m attempt) \<longrightarrow>
      attempt_loop g p m attempt s =
        (if g
         then attempt_loop g p m (attempt + 1)
                (s\<lparr>calls := calls s @ [(m, timeout m)], lastError := Some msg_timeout,
                   mgr := recordFailure m msg_timeout (mgr s)\<rparr>)
         else (Throw (ReferenceError ''attemptStartTime is not defined''),
               s\<lparr>calls := calls s @ [(m, timeout m)], lastError := Some msg_timeout\<rparr>)))"
proof (intro conjI impI)
  assume "\<forall>m a. p' m a = p m a \<or> (settles_late m (p m a) \<and> settles_late m (p' m a))"
  then have "race (timeout m) (p m a) = race (timeout m) (p' m a)" for m a
    by (rule late_outcomes_race)
  then show "executeWithFallback g p st = executeWithFallback g p' st"
    by (rule executeWithFallback_cong)
next
  assume h: "attempt < retries m \<and> settles_late m (p m attempt)"
  then have lt: "attempt < retries m"
    and r: "race (timeout m) (p m attempt) = Inl msg_timeout"
    by (simp_all add: race_settles_late)
  show "attempt_loop g p m attempt s =
        (if g
         then attempt_loop g p m (attempt + 1)
                (s\<lparr>calls := calls s @ [(m, timeout m)], lastError := Some msg_timeout,
                   mgr := recordFailure m msg_timeout (mgr s)\<rparr>)
         else (Throw (ReferenceError ''attemptStartTime is not defined''),
               s\<lparr>calls := calls s @ [(m, timeout m)], lastError := Some msg_timeout\<rparr>))"
  proof (cases g)
    case True
    with attempt_loop_failure_bound[where p=p and m=m and attempt=attempt and s=s, OF lt r]
    show ?thesis by simp
  next
    case False
    with attempt_loop_failure_unbound[where p=p and m=m and attempt=attempt and s=s, OF lt r]
    show ?thesis by simp
  qed
qed

theorem late_result_is_discarded_witness:
  "(\<forall>m a. play_webrtc_never m a = play_webrtc_late m a \<or>
      (settles_late m (play_webrtc_late m a) \<and> settles_late m (play_webrtc_never m a))) \<and>
   play_webrtc_late webrtc 0 = Resolves 12000 42 \<and>
   settles_late webrtc (play_webrtc_late webrtc 0) \<and>
   executeWithFallback True play_webrtc_never slow_state =
     executeWithFallback True play_webrtc_late slow_state \<and>
   fst (executeWithFallback True play_webrtc_never slow_state) = Inr 7 \<and>
   map (\<lambda>a. (ar_method a, ar_success a, ar_error a))
     (attemptHistory (mgr (snd (executeWithFallback True play_webrtc_never slow_state)))) =
     [(''webrtc'', False, msg_timeout), (''webrtc'', False, msg_timeout)]"
proof -
  have h: "\<forall>m a. play_webrtc_never m a = play_webrtc_late m a \<or>
      (settles_late m (play_webrtc_late m a) \<and> settles_late m (play_webrtc_never m a))"
    by (simp add: play_webrtc_never_def play_webrtc_late_def settles_late_def)
  have a: "play_webrtc_late webrtc 0 = Resolves 12000 42"
    by (simp add: play_webrtc_late_def webrtc_def)
  have b: "settles_late webrtc (play_webrtc_late webrtc 0)"
    by (simp add: play_webrtc_late_def settles_late_def webrtc_def)
  from late_result_is_discarded[of play_webrtc_never play_webrtc_late True slow_state] h
  have eq: "executeWithFallback True play_webrtc_never slow_state =
     executeWithFallback True play_webrtc_late slow_state"
    by simp
  from h a b eq webrtc_late_run(1) webrtc_late_run(3) show ?thesis
    by (simp only: simp_thms)
qed

subsection \<open>The executor works on the method list of the manager\<close>

text \<open>
  Claim C9. Whatever the network information of the manager is, every call that
  \<open>executeWithFallback\<close> makes hands a method object of the manager's own list to the play
  function, which is an entry of the constructor's list up to its availability flag, and
  starts the timer with the timeout of that object; no method is called more often than
  its \<open>retries\<close>; and the list is the same after the call. The adjusted copies that the
  selection computes contribute the name of the selected method only.
\<close>

theorem executor_uses_catalog_values:
  assumes "catalog_methods st"
  shows "(\<forall>x \<in> set (calls (snd (executeWithFallback g p st))).
            fst x \<in> set (methods st) \<and>
            (fst x)\<lparr>available := False\<rparr> \<in> set constructor_methods \<and>
            snd x = timeout (fst x)) \<and>
         (\<forall>m. length (filter (\<lambda>x. fst x = m) (calls (snd (executeWithFallback g p st))))
            \<le> retries m) \<and>
         methods (mgr (snd (executeWithFallback g p st))) = methods st"
  using executeWithFallback_calls[of g p st] catalog_methods_distinct[OF assms]
    catalog_methods_member[OF assms]
  by simp

theorem executor_uses_catalog_values_witness:
  "catalog_methods slow_state \<and>
   getNetworkSpeedCategory slow_state = Slow \<and>
   map (\<lambda>m. (name m, timeout m, retries m)) (selectOrder slow_state) =
     [(''webrtc'', 20000, 3), (''proxy'', 30000, 4), (''transcode'', 60000, 3),
      (''direct'', 40000, 2)] \<and>
   play_webrtc_late webrtc 0 = Resolves 12000 42 \<and>
   calls (snd (executeWithFallback True play_webrtc_late slow_state)) =
     [(webrtc, 10000), (webrtc, 10000), (proxy, 15000)] \<and>
   methods (mgr (snd (executeWithFallback True play_webrtc_late slow_state))) =
     methods slow_state"
proof -
  have h: "catalog_methods slow_state"
    unfolding slow_state_def by (rule catalog_methods_detected)
  have a: "map (\<lambda>m. (name m, timeout m, retries m)) (selectOrder slow_state) =
     [(''webrtc'', 20000, 3), (''proxy'', 30000, 4), (''transcode'', 60000, 3),
      (''direct'', 40000, 2)]"
    by (simp add: selectOrder_slow_state optimizedMethod_def method_defs)
  have b: "play_webrtc_late webrtc 0 = Resolves 12000 42"
    by (simp add: play_webrtc_late_def webrtc_def)
  from executor_uses_catalog_values[OF h, of True play_webrtc_late]
  have m: "methods (mgr (snd (executeWithFallback True play_webrtc_late slow_state))) =
     methods slow_state"
    by simp
  from h speed_slow_state a b webrtc_late_run(2) m show ?thesis
    by (intro conjI)
qed

end
